theory Spec2Isabelle
  imports Complex_Main "HOL-Library.Sublist"
begin

section \<open>TokenResolver (refigma-plugin/src/tokens.ts)\<close>

text \<open>
  The token schema \<open>tokens.json\<close> is imported by \<open>tokens.ts\<close> but is not part of the
  sources, so it is a parameter of every function that reads it. A JSON object is an
  association list of its own keys; how \<open>getColor\<close> reads one is the subject of the next
  section. A colour group is either a single string or a shade map, as the cast in
  \<open>getColor\<close> says
  (\<open>Record<string, string> | string | undefined\<close>).
\<close>

type_synonym 'v obj = "(string \<times> 'v) list"

datatype color_group = Single string | Shades "string obj"

record typo_style =
  fontSize :: real
  fontWeight :: real
  lineHeight :: real

record tokens =
  colors :: "color_group obj obj"
  fontFamily :: string
  scale :: "typo_style obj"

definition DEFAULT_THEME :: string where
  "DEFAULT_THEME = ''light''"

definition DEFAULT_COLOR :: string where
  "DEFAULT_COLOR = ''#000000''"

record inter_style =
  threshold :: real
  style :: string

definition INTER_STYLES :: "inter_style list" where
  "INTER_STYLES =
     [\<lparr>threshold = 700, style = ''Bold''\<rparr>,
      \<lparr>threshold = 600, style = ''Semi Bold''\<rparr>,
      \<lparr>threshold = 500, style = ''Medium''\<rparr>,
      \<lparr>threshold = 0, style = ''Regular''\<rparr>]"

record FontName =
  family :: string
  fstyle :: string

text \<open>
  The \<open>for ... of\<close> loop of \<open>resolveInterFont\<close>: \<open>chosen\<close> keeps its initial value
  unless an option with \<open>weight >= option.threshold\<close> is met, and the first such option
  ends the loop.
\<close>

fun inter_loop :: "real \<Rightarrow> inter_style list \<Rightarrow> inter_style \<Rightarrow> inter_style" where
  "inter_loop weight [] chosen = chosen"
| "inter_loop weight (option # rest) chosen =
     (if weight \<ge> threshold option then option else inter_loop weight rest chosen)"

definition chosenInterStyle :: "real \<Rightarrow> inter_style" where
  "chosenInterStyle weight =
     inter_loop weight INTER_STYLES (INTER_STYLES ! (length INTER_STYLES - 1))"

definition resolveInterFont :: "tokens \<Rightarrow> real \<Rightarrow> FontName" where
  "resolveInterFont T weight =
     \<lparr>family = fontFamily T, fstyle = style (chosenInterStyle weight)\<rparr>"

text \<open>\<open>String.prototype.split\<close> with a one-character separator.\<close>

fun split_on :: "char \<Rightarrow> string \<Rightarrow> string list" where
  "split_on c [] = [[]]"
| "split_on c (x # xs) =
     (if x = c then [] # split_on c xs
      else (case split_on c xs of
              [] \<Rightarrow> [[x]]
            | y # ys \<Rightarrow> (x # y) # ys))"

text \<open>
  The destructuring \<open>const [groupName, shade = ''] = token.split('/')\<close>: the first two
  segments, the second replaced by the empty string when there is none.
\<close>

definition token_parts :: "string \<Rightarrow> string \<times> string" where
  "token_parts token =
     (case split_on CHR ''/'' token of
        [] \<Rightarrow> ([], [])
      | [g] \<Rightarrow> (g, [])
      | g # s # _ \<Rightarrow> (g, s))"

section \<open>Property reads of the TokenResolver\<close>

text \<open>
  \<open>getColor\<close> reads the schema with \<open>tokens.colors[theme]\<close>, \<open>[groupName]\<close>,
  \<open>shade in group\<close> and \<open>group[shade]\<close>. These reads go through the prototype chain, so a
  name such as \<open>constructor\<close> finds what every object inherits. A value is \<open>undefined\<close>,
  \<open>null\<close>, a string, a plain object with its own properties, an object of the host
  environment (a built-in function or prototype, identified by a number), or another
  primitive (a number, boolean, symbol or bigint), of which only the truthiness matters.
\<close>

datatype jsval =
    Undefined
  | Null
  | Str string
  | Obj "(string \<times> jsval) list"
  | Host nat
  | Prim bool

text \<open>
  What the environment decides: the properties that a plain object inherits from
  \<open>Object.prototype\<close>, the properties of the host objects, and the property reads on
  primitive values.
\<close>

record realm =
  proto_has :: "string \<Rightarrow> bool"
  proto_get :: "string \<Rightarrow> jsval"
  host_has :: "nat \<Rightarrow> string \<Rightarrow> bool"
  host_get :: "nat \<Rightarrow> string \<Rightarrow> jsval"
  prim_get :: "jsval \<Rightarrow> string \<Rightarrow> jsval"

datatype error = TypeError

text \<open>\<open>v[k]\<close>: a \<open>TypeError\<close> on \<open>undefined\<close> and \<open>null\<close>.\<close>

definition js_get :: "realm \<Rightarrow> jsval \<Rightarrow> string \<Rightarrow> error + jsval" where
  "js_get R v k =
     (case v of
        Undefined \<Rightarrow> Inl TypeError
      | Null \<Rightarrow> Inl TypeError
      | Obj ps \<Rightarrow>
          Inr (case map_of ps k of
                 Some x \<Rightarrow> x
               | None \<Rightarrow> if proto_has R k then proto_get R k else Undefined)
      | Host n \<Rightarrow> Inr (host_get R n k)
      | Str s \<Rightarrow> Inr (prim_get R v k)
      | Prim b \<Rightarrow> Inr (prim_get R v k))"

text \<open>\<open>k in v\<close>: a \<open>TypeError\<close> when \<open>v\<close> is not an object.\<close>

definition js_in :: "realm \<Rightarrow> string \<Rightarrow> jsval \<Rightarrow> error + bool" where
  "js_in R k v =
     (case v of
        Obj ps \<Rightarrow> Inr (map_of ps k \<noteq> None \<or> proto_has R k)
      | Host n \<Rightarrow> Inr (host_has R n k)
      | Undefined \<Rightarrow> Inl TypeError
      | Null \<Rightarrow> Inl TypeError
      | Str s \<Rightarrow> Inl TypeError
      | Prim b \<Rightarrow> Inl TypeError)"

definition truthy :: "jsval \<Rightarrow> bool" where
  "truthy v =
     (case v of
        Undefined \<Rightarrow> False
      | Null \<Rightarrow> False
      | Str s \<Rightarrow> s \<noteq> []
      | Obj ps \<Rightarrow> True
      | Host n \<Rightarrow> True
      | Prim b \<Rightarrow> b)"

definition is_string :: "jsval \<Rightarrow> bool" where
  "is_string v = (case v of Str s \<Rightarrow> True | _ \<Rightarrow> False)"

text \<open>The schema's colours as the value that \<open>tokens.colors\<close> holds.\<close>

fun group_val :: "color_group \<Rightarrow> jsval" where
  "group_val (Single s) = Str s"
| "group_val (Shades grp) = Obj (map (\<lambda>(k, c). (k, Str c)) grp)"

definition theme_val :: "color_group obj \<Rightarrow> jsval" where
  "theme_val groups = Obj (map (\<lambda>(k, g). (k, group_val g)) groups)"

definition colors_val :: "tokens \<Rightarrow> jsval" where
  "colors_val T = Obj (map (\<lambda>(k, th). (k, theme_val th)) (colors T))"

text \<open>\<open>if (k in group) return group[k]\<close>, followed by the rest of the function.\<close>

definition in_then_get :: "realm \<Rightarrow> string \<Rightarrow> jsval \<Rightarrow> error + jsval \<Rightarrow> error + jsval" where
  "in_then_get R k grp otherwise =
     (case js_in R k grp of
        Inl e \<Rightarrow> Inl e
      | Inr b \<Rightarrow> if b then js_get R grp k else otherwise)"

text \<open>
  \<open>getColor\<close>. Its result is declared a string; what it returns at run time is whatever
  the reads find.
\<close>

definition getColor :: "realm \<Rightarrow> tokens \<Rightarrow> string \<Rightarrow> string \<Rightarrow> error + jsval" where
  "getColor R T theme token =
     (let (groupName, shade) = token_parts token
      in case js_get R (colors_val T) theme of
           Inl e \<Rightarrow> Inl e
         | Inr th \<Rightarrow>
             (let resolvedTheme = (if truthy th then theme else DEFAULT_THEME)
              in case js_get R (colors_val T) resolvedTheme of
                   Inl e \<Rightarrow> Inl e
                 | Inr themeObj \<Rightarrow>
                     (case js_get R themeObj groupName of
                        Inl e \<Rightarrow> Inl e
                      | Inr grp \<Rightarrow>
                          if \<not> truthy grp then Inr (Str DEFAULT_COLOR)
                          else if is_string grp then Inr grp
                          else if shade = []
                          then in_then_get R ''500'' grp
                                 (in_then_get R shade grp (Inr (Str DEFAULT_COLOR)))
                          else in_then_get R shade grp (Inr (Str DEFAULT_COLOR)))))"

text \<open>Every colour string the schema holds, in any theme and group.\<close>

fun group_values :: "color_group \<Rightarrow> string list" where
  "group_values (Single s) = [s]"
| "group_values (Shades grp) = map snd grp"

definition schema_colors :: "tokens \<Rightarrow> string list" where
  "schema_colors T = concat (map (\<lambda>(_, groups). concat (map (group_values \<circ> snd) groups)) (colors T))"

text \<open>The value of \<open>group\<close> in \<open>getColor\<close> for a theme and a token.\<close>

definition resolved_group :: "realm \<Rightarrow> tokens \<Rightarrow> string \<Rightarrow> string \<Rightarrow> error + jsval" where
  "resolved_group R T theme token =
     (case js_get R (colors_val T) theme of
        Inl e \<Rightarrow> Inl e
      | Inr th \<Rightarrow>
          (case js_get R (colors_val T) (if truthy th then theme else DEFAULT_THEME) of
             Inl e \<Rightarrow> Inl e
           | Inr themeObj \<Rightarrow> js_get R themeObj (fst (token_parts token))))"

text \<open>
  A part of the standard environment, enough for the inputs evaluated below: the names
  that \<open>Object.prototype\<close> defines, with \<open>constructor\<close> the function \<open>Object\<close> (host object 0),
  whose \<open>name\<close> is \<open>"Object"\<close> and whose \<open>length\<close> is the number 1; host object 1 is
  \<open>Object.prototype\<close> and host object 2 stands for the other built-in functions.
\<close>

definition object_prototype_names :: "string list" where
  "object_prototype_names =
     [''constructor'', ''__proto__'', ''hasOwnProperty'', ''isPrototypeOf'',
      ''propertyIsEnumerable'', ''toLocaleString'', ''toString'', ''valueOf'',
      ''__defineGetter__'', ''__defineSetter__'', ''__lookupGetter__'', ''__lookupSetter__'']"

definition demo_realm :: realm where
  "demo_realm =
     \<lparr>proto_has = (\<lambda>k. k \<in> set object_prototype_names),
      proto_get = (\<lambda>k. if k = ''constructor'' then Host 0
                        else if k = ''__proto__'' then Host 1
                        else if k \<in> set object_prototype_names then Host 2 else Undefined),
      host_has = (\<lambda>n k. (n = 0 \<and> k \<in> set [''name'', ''length'', ''prototype''])
                         \<or> k \<in> set object_prototype_names),
      host_get = (\<lambda>n k. if n = 0 \<and> k = ''name'' then Str ''Object''
                         else if n = 0 \<and> k = ''length'' then Prim True
                         else if n = 0 \<and> k = ''prototype'' then Host 1
                         else if k = ''constructor'' then Host 0
                         else if k \<in> set object_prototype_names then Host 2 else Undefined),
      prim_get = (\<lambda>v k. Undefined)\<rparr>"

text \<open>A small schema used to run the functions on concrete inputs.\<close>

definition demo_tokens :: tokens where
  "demo_tokens =
     \<lparr>colors =
        [(''light'',
          [(''primary'', Shades [(''500'', ''#3366FF''), (''600'', ''#254EDB'')]),
           (''accent'', Shades [(''400'', ''#FF8A65'')]),
           (''surface'', Single ''#FFFFFF'')])],
      fontFamily = ''Inter'',
      scale =
        [(''h1'', \<lparr>fontSize = 56, fontWeight = 700, lineHeight = 64\<rparr>),
         (''h2'', \<lparr>fontSize = 40, fontWeight = 700, lineHeight = 48\<rparr>),
         (''h3'', \<lparr>fontSize = 28, fontWeight = 600, lineHeight = 36\<rparr>),
         (''body'', \<lparr>fontSize = 16, fontWeight = 400, lineHeight = 24\<rparr>),
         (''bodyBold'', \<lparr>fontSize = 16, fontWeight = 600, lineHeight = 24\<rparr>),
         (''caption'', \<lparr>fontSize = 14, fontWeight = 400, lineHeight = 20\<rparr>),
         (''captionBold'', \<lparr>fontSize = 14, fontWeight = 500, lineHeight = 20\<rparr>)]\<rparr>"

section \<open>Regular expressions as the code uses them\<close>

text \<open>
  \<open>String.prototype.match\<close> with a regular expression without the \<open>g\<close> flag is a
  backtracking search for the leftmost match. Strings are lists of code units below 256.
  The matcher returns every way a pattern can match a prefix of the input, in the order
  in which backtracking tries them (greedy quantifiers try the longest repetition first),
  each with the rest of the input and the captures made so far; the first element is the
  match that \<open>match\<close> reports. An iteration of \<open>*\<close> or \<open>+\<close> that consumes nothing is
  not repeated, as ECMAScript prescribes, so as many iterations as the input has
  characters are enough.
\<close>

datatype rx =
    Lit char
  | Cls "char \<Rightarrow> bool"
  | Seq rx rx
  | Star rx
  | Plus rx
  | Opt rx
  | Grp nat rx

type_synonym mstate = "string \<times> (nat \<times> string) list"

definition to_upper :: "char \<Rightarrow> char" where
  "to_upper c =
     (case map_of (zip ''abcdefghijklmnopqrstuvwxyz'' ''ABCDEFGHIJKLMNOPQRSTUVWXYZ'') c of
        Some u \<Rightarrow> u
      | None \<Rightarrow> c)"

definition lit_eq :: "bool \<Rightarrow> char \<Rightarrow> char \<Rightarrow> bool" where
  "lit_eq ignoreCase c x = (if ignoreCase then to_upper x = to_upper c else x = c)"

fun star_iter :: "(mstate \<Rightarrow> mstate list) \<Rightarrow> nat \<Rightarrow> mstate \<Rightarrow> mstate list" where
  "star_iter f 0 st = [st]"
| "star_iter f (Suc n) st =
     concat (map (star_iter f n) (filter (\<lambda>st'. length (fst st') < length (fst st)) (f st)))
     @ [st]"

fun rx_match :: "bool \<Rightarrow> rx \<Rightarrow> mstate \<Rightarrow> mstate list" where
  "rx_match i (Lit c) st =
     (case fst st of [] \<Rightarrow> [] | x # xs \<Rightarrow> if lit_eq i c x then [(xs, snd st)] else [])"
| "rx_match i (Cls p) st =
     (case fst st of [] \<Rightarrow> [] | x # xs \<Rightarrow> if p x then [(xs, snd st)] else [])"
| "rx_match i (Seq a b) st = concat (map (rx_match i b) (rx_match i a st))"
| "rx_match i (Star a) st = star_iter (rx_match i a) (length (fst st)) st"
| "rx_match i (Plus a) st =
     concat (map (\<lambda>st'. star_iter (rx_match i a) (length (fst st')) st') (rx_match i a st))"
| "rx_match i (Opt a) st = rx_match i a st @ [st]"
| "rx_match i (Grp n a) st =
     map (\<lambda>st'. (fst st', (n, take (length (fst st) - length (fst st')) (fst st)) # snd st'))
       (rx_match i a st)"

text \<open>
  The search of \<open>match\<close>: the first start position at which the pattern matches. The
  result is \<open>match[0]\<close>, the matched text, with the captures.
\<close>

definition rx_first :: "bool \<Rightarrow> rx \<Rightarrow> mstate \<Rightarrow> mstate option" where
  "rx_first i p st = (case rx_match i p st of [] \<Rightarrow> None | st' # _ \<Rightarrow> Some st')"

fun rx_search :: "bool \<Rightarrow> rx \<Rightarrow> string \<Rightarrow> (string \<times> (nat \<times> string) list) option" where
  "rx_search i p [] =
     (case rx_first i p ([], []) of
        None \<Rightarrow> None
      | Some st \<Rightarrow> Some ([], snd st))"
| "rx_search i p (x # xs) =
     (case rx_first i p (x # xs, []) of
        None \<Rightarrow> rx_search i p xs
      | Some st \<Rightarrow> Some (take (length (x # xs) - length (fst st)) (x # xs), snd st))"

fun seqs :: "rx list \<Rightarrow> rx" where
  "seqs [] = Opt (Cls (\<lambda>_. False))"
| "seqs [p] = p"
| "seqs (p # ps) = Seq p (seqs ps)"


definition is_space :: "char \<Rightarrow> bool" where
  "is_space c =
     (c \<in> set [CHR 0x09, CHR 0x0A, CHR 0x0B, CHR 0x0C, CHR 0x0D, CHR 0x20, CHR 0xA0])"

section \<open>ColorCodec (refigma-plugin/src/tokens.ts)\<close>

text \<open>
  The numbers of the code are IEEE doubles. Their arithmetic is a parameter: \<open>Number\<close> is
  the conversion \<open>Number(text)\<close>, \<open>num_div\<close> is the division \<open>/\<close>, and \<open>literal\<close> gives the
  value of a numeric literal of the source from its text. \<open>symbolic\<close> is the arithmetic
  that computes nothing and keeps the expression, which shows what the code evaluates.
\<close>

record 'n arith =
  Number :: "string \<Rightarrow> 'n"
  num_div :: "'n \<Rightarrow> 'n \<Rightarrow> 'n"
  literal :: "string \<Rightarrow> 'n"







section \<open>Scene nodes and the host canvas\<close>

text \<open>
  A scene node as the plugin sees it: its type, its name, the text of a text node, its
  visibility flag, its fonts and its ordered children. The name is \<open>None\<close> as long as the
  plugin has not assigned one (the host then shows a default name, which is taken to be
  none of the names the plugin looks up). \<open>fontName\<close> is \<open>Mixed\<close> for \<open>figma.mixed\<close>;
  \<open>rangeFonts\<close> holds what \<open>getRangeFontName(i, i + 1)\<close> returns for each character.
  Fills, strokes, padding, sizes and effects are not part of the model: no function below
  reads them.
\<close>

datatype node_type = FRAME | TEXT | RECTANGLE | ELLIPSE

datatype font_name = Mixed | Font FontName

datatype node =
  Node (ntype: node_type) (name: "string option") (characters: string) (visible: bool)
       (fontName: font_name) (rangeFonts: "font_name list") (children: "node list")

text \<open>
  A reference to a node inside a tree is the path of child indices that leads to it. An
  assignment to a property of the referenced node is an update at that path.
\<close>

type_synonym path = "nat list"

fun node_at :: "node \<Rightarrow> path \<Rightarrow> node option" where
  "node_at n [] = Some n"
| "node_at n (i # p) =
     (if i < length (children n) then node_at (children n ! i) p else None)"

fun update_at :: "(node \<Rightarrow> node) \<Rightarrow> path \<Rightarrow> node \<Rightarrow> node" where
  "update_at f [] n = f n"
| "update_at f (i # p) (Node ty nm ch v fn rf cs) =
     (if i < length cs then Node ty nm ch v fn rf (cs[i := update_at f p (cs ! i)])
      else Node ty nm ch v fn rf cs)"

definition set_characters :: "string \<Rightarrow> node \<Rightarrow> node" where
  "set_characters s n =
     Node (ntype n) (name n) s (visible n) (fontName n) (rangeFonts n) (children n)"

definition set_visible :: "bool \<Rightarrow> node \<Rightarrow> node" where
  "set_visible b n =
     Node (ntype n) (name n) (characters n) b (fontName n) (rangeFonts n) (children n)"

definition set_name :: "string \<Rightarrow> node \<Rightarrow> node" where
  "set_name s n =
     Node (ntype n) (Some s) (characters n) (visible n) (fontName n) (rangeFonts n) (children n)"

definition appendChild :: "node \<Rightarrow> node \<Rightarrow> node" where
  "appendChild parent child =
     Node (ntype parent) (name parent) (characters parent) (visible parent) (fontName parent)
       (rangeFonts parent) (children parent @ [child])"

text \<open>
  \<open>findOne\<close> searches the descendants of a node, parents before their children and
  children in their order, and returns the first node that satisfies the callback.
  \<open>find_from cs k\<close> searches the children \<open>cs\<close>, which start at index \<open>k\<close> of their
  parent.
\<close>

fun find_from :: "(node \<Rightarrow> bool) \<Rightarrow> node list \<Rightarrow> nat \<Rightarrow> path option" where
  "find_from P [] k = None"
| "find_from P (Node ty nm ch v fn rf cs # rest) k =
     (if P (Node ty nm ch v fn rf cs) then Some [k]
      else (case find_from P cs 0 of
              Some p \<Rightarrow> Some (k # p)
            | None \<Rightarrow> find_from P rest (Suc k)))"

definition findOne :: "(node \<Rightarrow> bool) \<Rightarrow> node \<Rightarrow> path option" where
  "findOne P rootNode = find_from P (children rootNode) 0"

text \<open>
  A thrown value: an \<open>Error\<close> object with its message, or any other value. A host
  function that returns a promise resolves or rejects with a thrown value.
\<close>

datatype thrown = Err string | NonError

section \<open>ContentApplicationEngine (refigma-plugin/src/main.ts)\<close>

text \<open>
  The payload at its declared type \<open>GeminiSiteContent\<close>: texts are strings, the
  highlights and the bullets are arrays of strings, the metrics are an array of objects. A
  field that is missing, \<open>undefined\<close> or \<open>null\<close> is \<open>None\<close>.
\<close>

record hero_content =
  hero_title :: "string option"
  hero_subtitle :: "string option"
  hero_primaryCta :: "string option"
  hero_secondaryCta :: "string option"
  hero_assurance :: "string option"
  hero_highlights :: "string list option"

record metric_content =
  metric_value :: "string option"
  metric_label :: "string option"

record testimonial_content =
  testimonial_heading :: "string option"
  testimonial_subtitle :: "string option"
  testimonial_quote :: "string option"
  testimonial_bullets :: "string list option"
  testimonial_attribution :: "string option"
  testimonial_attributionRole :: "string option"
  testimonial_callout :: "string option"

record cta_content =
  cta_title :: "string option"
  cta_subtitle :: "string option"
  cta_primaryCta :: "string option"
  cta_secondaryCta :: "string option"

record GeminiSiteContent =
  hero :: "hero_content option"
  metrics :: "metric_content list option"
  testimonial :: "testimonial_content option"
  cta :: "cta_content option"

text \<open>
  A function that mutates the tree returns the new tree, or the value it threw together
  with the tree as it was when it threw (mutations are not rolled back).
\<close>

type_synonym result = "(thrown \<times> node) + node"

definition findText :: "node \<Rightarrow> string \<Rightarrow> path option" where
  "findText rootNode nm = findOne (\<lambda>n. ntype n = TEXT \<and> name n = Some nm) rootNode"

definition findNamed :: "node \<Rightarrow> string \<Rightarrow> path option" where
  "findNamed rootNode nm = findOne (\<lambda>n. name n = Some nm) rootNode"

text \<open>
  The font loading of \<open>setText\<close>: the font of every character of a text with mixed fonts
  (skipping a range that is itself mixed), or the one font of the node. The first load that
  rejects ends it.
\<close>

fun load_all :: "(FontName \<Rightarrow> thrown option) \<Rightarrow> font_name list \<Rightarrow> thrown option" where
  "load_all loadFontAsync [] = None"
| "load_all loadFontAsync (Mixed # fs) = load_all loadFontAsync fs"
| "load_all loadFontAsync (Font f # fs) =
     (case loadFontAsync f of Some e \<Rightarrow> Some e | None \<Rightarrow> load_all loadFontAsync fs)"

definition getRangeFontName :: "node \<Rightarrow> nat \<Rightarrow> font_name" where
  "getRangeFontName n i = (if i < length (rangeFonts n) then rangeFonts n ! i else Mixed)"

definition load_fonts :: "(FontName \<Rightarrow> thrown option) \<Rightarrow> node \<Rightarrow> thrown option" where
  "load_fonts loadFontAsync n =
     (case fontName n of
        Mixed \<Rightarrow> load_all loadFontAsync (map (getRangeFontName n) [0..<length (characters n)])
      | Font f \<Rightarrow> loadFontAsync f)"

text \<open>
  \<open>setText(node, value)\<close> on the tree \<open>t\<close> that holds the node. The fonts of the node after
  the assignment are the host's and are not read again.
\<close>

definition setText :: "(FontName \<Rightarrow> thrown option) \<Rightarrow> path option \<Rightarrow> string option \<Rightarrow> node \<Rightarrow> result" where
  "setText loadFontAsync node val t =
     (case node of
        None \<Rightarrow> Inr t
      | Some p \<Rightarrow>
          (case val of
             None \<Rightarrow> Inr t
           | Some v \<Rightarrow>
               (case node_at t p of
                  None \<Rightarrow> Inr t
                | Some n \<Rightarrow>
                    (case load_fonts loadFontAsync n of
                       Some e \<Rightarrow> Inl (e, t)
                     | None \<Rightarrow> Inr (update_at (set_characters v) p t)))))"

text \<open>The statement \<open>await setText(findText(landing, name), value)\<close>.\<close>

definition setTextByName :: "(FontName \<Rightarrow> thrown option) \<Rightarrow> string \<Rightarrow> string option \<Rightarrow> node \<Rightarrow> result" where
  "setTextByName loadFontAsync nm val t = setText loadFontAsync (findText t nm) val t"

text \<open>
  Statements run in sequence; a statement that throws ends the sequence.
\<close>

fun seq_steps :: "(node \<Rightarrow> result) list \<Rightarrow> node \<Rightarrow> result" where
  "seq_steps [] t = Inr t"
| "seq_steps (f # fs) t = (case f t of Inl x \<Rightarrow> Inl x | Inr t' \<Rightarrow> seq_steps fs t')"

text \<open>\<open>list[i]\<close>, which is \<open>undefined\<close> beyond the end of the array.\<close>

definition item_at :: "'a list \<Rightarrow> nat \<Rightarrow> 'a option" where
  "item_at xs i = (if i < length xs then Some (xs ! i) else None)"

text \<open>The decimal digits of a number, as a template literal prints it.\<close>

fun nat_str :: "nat \<Rightarrow> string" where
  "nat_str n =
     (if n < 10 then [''0123456789'' ! n]
      else nat_str (n div 10) @ [''0123456789'' ! (n mod 10)])"

declare nat_str.simps [simp del]

text \<open>
  The body of the two loops over repeatable rows. An item is used when it is truthy, that
  is a non-empty string, and the text node was found.
\<close>

definition row_step :: "(FontName \<Rightarrow> thrown option) \<Rightarrow> string \<Rightarrow> string list \<Rightarrow> nat \<Rightarrow> node \<Rightarrow> result" where
  "row_step loadFontAsync pre items i t =
     (let item = item_at items i;
          textNode = findText t (pre @ nat_str i @ '':Text'');
          row = findNamed t (pre @ nat_str i)
      in if item \<noteq> None \<and> item \<noteq> Some [] \<and> textNode \<noteq> None
         then (case setText loadFontAsync textNode item t of
                 Inl x \<Rightarrow> Inl x
               | Inr t' \<Rightarrow>
                   (case row of
                      Some p \<Rightarrow> Inr (update_at (set_visible True) p t')
                    | None \<Rightarrow> Inr t'))
         else (case row of
                 Some p \<Rightarrow> Inr (update_at (set_visible False) p t)
               | None \<Rightarrow> Inr t))"

definition metric_steps :: "(FontName \<Rightarrow> thrown option) \<Rightarrow> metric_content list \<Rightarrow> nat \<Rightarrow> (node \<Rightarrow> result) list" where
  "metric_steps loadFontAsync ms i =
     (let metric = item_at ms i
      in [setTextByName loadFontAsync (''HeroMetric:'' @ nat_str i @ '':Value'')
            (case metric of Some m \<Rightarrow> metric_value m | None \<Rightarrow> None),
          setTextByName loadFontAsync (''HeroMetric:'' @ nat_str i @ '':Label'')
            (case metric of Some m \<Rightarrow> metric_label m | None \<Rightarrow> None)])"

text \<open>
  The statements of \<open>applyGeminiContent\<close>, in their order. The non-repeatable fields of
  each part of the payload are listed with their anchors; \<open>Option.bind h hero_title\<close> is
  \<open>hero.title\<close> with \<open>hero\<close> replaced by \<open>{}\<close> when the payload has none.
\<close>

definition hero_fields :: "hero_content option \<Rightarrow> (string \<times> string option) list" where
  "hero_fields h =
     [(''Hero:Heading'', Option.bind h hero_title),
      (''Hero:Subheading'', Option.bind h hero_subtitle),
      (''HeroCTA:Primary:Label'', Option.bind h hero_primaryCta),
      (''HeroCTA:Secondary:Label'', Option.bind h hero_secondaryCta),
      (''Hero:Assurance'', Option.bind h hero_assurance)]"

definition testimonial_fields :: "testimonial_content option \<Rightarrow> (string \<times> string option) list" where
  "testimonial_fields t =
     [(''Testimonial:Heading'', Option.bind t testimonial_heading),
      (''Testimonial:Subtitle'', Option.bind t testimonial_subtitle),
      (''Testimonial:Quote'', Option.bind t testimonial_quote),
      (''Testimonial:Attribution'', Option.bind t testimonial_attribution),
      (''Testimonial:AttributionRole'', Option.bind t testimonial_attributionRole),
      (''Testimonial:Callout'', Option.bind t testimonial_callout)]"

definition cta_fields :: "cta_content option \<Rightarrow> (string \<times> string option) list" where
  "cta_fields c =
     [(''CTA:Heading'', Option.bind c cta_title),
      (''CTA:Body'', Option.bind c cta_subtitle),
      (''CTA:PrimaryLabel'', Option.bind c cta_primaryCta),
      (''CTA:SecondaryLabel'', Option.bind c cta_secondaryCta)]"


definition highlightList :: "GeminiSiteContent \<Rightarrow> string list" where
  "highlightList content =
     (case Option.bind (hero content) hero_highlights of Some l \<Rightarrow> l | None \<Rightarrow> [])"

definition testimonialBullets :: "GeminiSiteContent \<Rightarrow> string list" where
  "testimonialBullets content =
     (case Option.bind (testimonial content) testimonial_bullets of Some l \<Rightarrow> l | None \<Rightarrow> [])"

definition metricList :: "GeminiSiteContent \<Rightarrow> metric_content list" where
  "metricList content = (case metrics content of Some l \<Rightarrow> l | None \<Rightarrow> [])"

definition content_steps :: "(FontName \<Rightarrow> thrown option) \<Rightarrow> GeminiSiteContent \<Rightarrow> (node \<Rightarrow> result) list" where
  "content_steps loadFontAsync content =
     map (\<lambda>(nm, val). setTextByName loadFontAsync nm val) (hero_fields (hero content))
     @ map (row_step loadFontAsync ''Hero:Highlight:'' (highlightList content)) [0..<3]
     @ concat (map (metric_steps loadFontAsync (metricList content)) [0..<3])
     @ map (\<lambda>(nm, val). setTextByName loadFontAsync nm val)
         (testimonial_fields (testimonial content))
     @ map (row_step loadFontAsync ''Testimonial:Bullet:'' (testimonialBullets content)) [0..<3]
     @ map (\<lambda>(nm, val). setTextByName loadFontAsync nm val) (cta_fields (cta content))"

definition applyGeminiContent :: "(FontName \<Rightarrow> thrown option) \<Rightarrow> node \<Rightarrow> GeminiSiteContent \<Rightarrow> result" where
  "applyGeminiContent loadFontAsync landing content =
     seq_steps (content_steps loadFontAsync content) landing"

text \<open>What the engine can observe of a tree by name: the text of the text anchor of that
  name, and the visibility flag of the node of that name.\<close>

definition text_of :: "node \<Rightarrow> string \<Rightarrow> string option" where
  "text_of t nm =
     (case findText t nm of
        None \<Rightarrow> None
      | Some p \<Rightarrow> map_option characters (node_at t p))"

definition vis_of :: "node \<Rightarrow> string \<Rightarrow> bool option" where
  "vis_of t nm =
     (case findNamed t nm of
        None \<Rightarrow> None
      | Some p \<Rightarrow> map_option visible (node_at t p))"

definition final_tree :: "result \<Rightarrow> node" where
  "final_tree r = (case r of Inl (e, t) \<Rightarrow> t | Inr t \<Rightarrow> t)"

text \<open>
  The topology of a tree: its nodes with their types and names, with text, visibility and
  fonts erased.
\<close>

fun topology :: "node \<Rightarrow> node" where
  "topology (Node ty nm ch v fn rf cs) = Node ty nm [] True Mixed [] (map topology cs)"

text \<open>
  The effect of the statements of \<open>applyGeminiContent\<close> on what can be observed by name.
  \<open>obs_setText\<close> is the effect of \<open>setText(findText(landing, name), value)\<close> and
  \<open>obs_row\<close> that of the body of a row loop.
\<close>

type_synonym obs = "(string \<Rightarrow> string option) \<times> (string \<Rightarrow> bool option)"

definition obs_of :: "node \<Rightarrow> obs" where
  "obs_of t = (text_of t, vis_of t)"

definition has_text :: "obs \<Rightarrow> string \<Rightarrow> bool" where
  "has_text ob k = (fst ob k \<noteq> None)"

definition has_vis :: "obs \<Rightarrow> string \<Rightarrow> bool" where
  "has_vis ob k = (snd ob k \<noteq> None)"

definition obs_setText :: "string \<Rightarrow> string option \<Rightarrow> obs \<Rightarrow> obs" where
  "obs_setText nm val ob =
     ((\<lambda>k. if k = nm \<and> val \<noteq> None \<and> has_text ob nm then val else fst ob k), snd ob)"

definition row_used :: "string \<Rightarrow> string list \<Rightarrow> nat \<Rightarrow> obs \<Rightarrow> bool" where
  "row_used pre items i ob =
     (item_at items i \<noteq> None \<and> item_at items i \<noteq> Some []
      \<and> has_text ob (pre @ nat_str i @ '':Text''))"

definition obs_row :: "string \<Rightarrow> string list \<Rightarrow> nat \<Rightarrow> obs \<Rightarrow> obs" where
  "obs_row pre items i ob =
     ((\<lambda>k. if k = pre @ nat_str i @ '':Text'' \<and> row_used pre items i ob
            then item_at items i else fst ob k),
      (\<lambda>k. if k = pre @ nat_str i \<and> has_vis ob k
            then Some (row_used pre items i ob) else snd ob k))"

definition obs_metric :: "metric_content list \<Rightarrow> nat \<Rightarrow> (obs \<Rightarrow> obs) list" where
  "obs_metric ms i =
     [obs_setText (''HeroMetric:'' @ nat_str i @ '':Value'')
        (case item_at ms i of Some m \<Rightarrow> metric_value m | None \<Rightarrow> None),
      obs_setText (''HeroMetric:'' @ nat_str i @ '':Label'')
        (case item_at ms i of Some m \<Rightarrow> metric_label m | None \<Rightarrow> None)]"

definition obs_steps :: "GeminiSiteContent \<Rightarrow> (obs \<Rightarrow> obs) list" where
  "obs_steps content =
     map (\<lambda>(nm, val). obs_setText nm val) (hero_fields (hero content))
     @ map (obs_row ''Hero:Highlight:'' (highlightList content)) [0..<3]
     @ concat (map (obs_metric (metricList content)) [0..<3])
     @ map (\<lambda>(nm, val). obs_setText nm val) (testimonial_fields (testimonial content))
     @ map (obs_row ''Testimonial:Bullet:'' (testimonialBullets content)) [0..<3]
     @ map (\<lambda>(nm, val). obs_setText nm val) (cta_fields (cta content))"

definition step_effect :: "(node \<Rightarrow> result) \<Rightarrow> (obs \<Rightarrow> obs) \<Rightarrow> bool" where
  "step_effect f A =
     (\<forall>t. case f t of Inr t' \<Rightarrow> obs_of t' = A (obs_of t) | Inl (e, t') \<Rightarrow> t' = t)"

section \<open>SceneGraphBuilder (refigma-plugin/src/tokens.ts)\<close>

text \<open>
  The builders create nodes, set their properties and append them to their parents. The
  model keeps the structure of the scene: the type, name, text, visibility and font of
  every node, and the order of the children. A builder returns the node it has built, or the
  value thrown by the first call that throws: \<open>applyTextStyle\<close> throws for a typography
  variant that the schema does not have, and \<open>figma.loadFontAsync\<close> can reject. The nodes
  that a failed build has already created are not modelled.
\<close>

definition createFrame :: node where
  "createFrame = Node FRAME None [] True Mixed [] []"

definition createRectangle :: node where
  "createRectangle = Node RECTANGLE None [] True Mixed [] []"

definition createEllipse :: node where
  "createEllipse = Node ELLIPSE None [] True Mixed [] []"

definition createText :: node where
  "createText = Node TEXT None [] True (Font \<lparr>family = ''Inter'', fstyle = ''Regular''\<rparr>) [] []"

datatype direction = HORIZONTAL | VERTICAL

definition createAutoLayout :: "direction \<Rightarrow> node" where
  "createAutoLayout d = createFrame"

definition set_fontName :: "font_name \<Rightarrow> node \<Rightarrow> node" where
  "set_fontName f n =
     Node (ntype n) (name n) (characters n) (visible n) f (rangeFonts n) (children n)"

text \<open>
  \<open>applyTextStyle\<close>. The builders call it with the literals \<open>h1\<close>, \<open>h2\<close>, \<open>h3\<close>,
  \<open>body\<close>, \<open>bodyBold\<close>, \<open>caption\<close> and \<open>captionBold\<close> only, none of which is a name
  that objects inherit, so the read \<open>tokens.typography.scale[variant]\<close> is a look-up among
  the entries of the schema. The font size and the fill are style and are left out.
\<close>

definition applyTextStyle :: "tokens \<Rightarrow> (FontName \<Rightarrow> thrown option) \<Rightarrow> node \<Rightarrow> string \<Rightarrow> thrown + node" where
  "applyTextStyle T loadFontAsync textNode variant =
     (case map_of (scale T) variant of
        None \<Rightarrow> Inl (Err (''Unknown typography variant: '' @ variant))
      | Some st \<Rightarrow>
          (let fontName = resolveInterFont T (fontWeight st)
           in case loadFontAsync fontName of
                Some e \<Rightarrow> Inl e
              | None \<Rightarrow> Inr (set_fontName (Font fontName) textNode)))"

text \<open>\<open>createTextNode(content, variant, fillToken, maxWidth)\<close>; the fill and the width are
  style and are left out.\<close>

definition createTextNode :: "tokens \<Rightarrow> (FontName \<Rightarrow> thrown option) \<Rightarrow> string \<Rightarrow> string \<Rightarrow> thrown + node" where
  "createTextNode T loadFontAsync content variant =
     (case applyTextStyle T loadFontAsync createText variant of
        Inl e \<Rightarrow> Inl e
      | Inr n \<Rightarrow> Inr (set_characters content n))"

text \<open>
  \<open>append_all parent cs\<close> appends the children that the builders \<open>cs\<close> return, in their
  order; the first builder that throws ends it. \<open>named\<close> assigns a name to what a builder
  returns.
\<close>

fun append_all :: "node \<Rightarrow> (thrown + node) list \<Rightarrow> thrown + node" where
  "append_all parent [] = Inr parent"
| "append_all parent (c # cs) =
     (case c of Inl e \<Rightarrow> Inl e | Inr n \<Rightarrow> append_all (appendChild parent n) cs)"

definition named :: "string \<Rightarrow> thrown + node \<Rightarrow> thrown + node" where
  "named nm r = (case r of Inl e \<Rightarrow> Inl e | Inr n \<Rightarrow> Inr (set_name nm n))"

text \<open>
  \<open>const label = button.findOne((node) => node.type === 'TEXT'); if (label) label.name = nm\<close>
\<close>

definition name_first_text :: "string \<Rightarrow> thrown + node \<Rightarrow> thrown + node" where
  "name_first_text nm r =
     (case r of
        Inl e \<Rightarrow> Inl e
      | Inr n \<Rightarrow>
          (case findOne (\<lambda>c. ntype c = TEXT) n of
             Some p \<Rightarrow> Inr (update_at (set_name nm) p n)
           | None \<Rightarrow> Inr n))"

datatype button_variant = primary | ghost

definition createButton :: "tokens \<Rightarrow> (FontName \<Rightarrow> thrown option) \<Rightarrow> string \<Rightarrow> button_variant \<Rightarrow> thrown + node" where
  "createButton T lf label variant =
     (if variant = primary
      then append_all (createAutoLayout HORIZONTAL) [createTextNode T lf label ''captionBold'']
      else append_all (createAutoLayout HORIZONTAL) [createTextNode T lf label ''captionBold''])"

definition createMetricCard :: "tokens \<Rightarrow> (FontName \<Rightarrow> thrown option) \<Rightarrow> nat \<Rightarrow> string \<Rightarrow> string \<Rightarrow> string \<Rightarrow> thrown + node" where
  "createMetricCard T lf index val label accent =
     append_all (set_name (''HeroMetric:'' @ nat_str index) (createAutoLayout VERTICAL))
       [named (''HeroMetric:'' @ nat_str index @ '':Value'') (createTextNode T lf val ''h3''),
        named (''HeroMetric:'' @ nat_str index @ '':Label'') (createTextNode T lf label ''caption'')]"

definition createHeroVisualHeader :: "tokens \<Rightarrow> (FontName \<Rightarrow> thrown option) \<Rightarrow> thrown + node" where
  "createHeroVisualHeader T lf =
     append_all (createAutoLayout HORIZONTAL)
       [createTextNode T lf ''Realtime preview aktif'' ''captionBold'',
        createTextNode T lf ''Sinkronisasi token live'' ''caption'']"

definition createHeroVisualToolbar :: "tokens \<Rightarrow> (FontName \<Rightarrow> thrown option) \<Rightarrow> thrown + node" where
  "createHeroVisualToolbar T lf =
     append_all (createAutoLayout HORIZONTAL)
       [append_all (createAutoLayout HORIZONTAL)
          [append_all (createAutoLayout HORIZONTAL)
             (map (\<lambda>color. Inr createEllipse) [''primary/400'', ''accent/400'', ''neutral/400'']),
           createTextNode T lf ''Board Refigma Nova'' ''captionBold''],
        append_all (createAutoLayout HORIZONTAL)
          [createTextNode T lf ''Autosave on'' ''captionBold'']]"

definition createHeroVisualMainCard :: "tokens \<Rightarrow> (FontName \<Rightarrow> thrown option) \<Rightarrow> thrown + node" where
  "createHeroVisualMainCard T lf =
     append_all (createAutoLayout VERTICAL)
       [createTextNode T lf ''Layout hero siap handoff'' ''bodyBold'',
        createTextNode T lf
          ''Variant desktop, tablet, dan mobile diselaraskan otomatis dengan token Refigma.''
          ''caption'',
        append_all createFrame [Inr createRectangle],
        append_all (createAutoLayout HORIZONTAL)
          [createTextNode T lf ''72% token sinkron'' ''captionBold'',
           createTextNode T lf ''7 pemeriksaan QA selesai'' ''caption''],
        append_all (createAutoLayout HORIZONTAL)
          (map (\<lambda>chip. append_all (createAutoLayout HORIZONTAL)
                          [createTextNode T lf chip ''captionBold''])
             [''Spec link otomatis'', ''Akses developer'', ''Checklist lulus''])]"

definition createHeroVisualSidebar :: "tokens \<Rightarrow> (FontName \<Rightarrow> thrown option) \<Rightarrow> thrown + node" where
  "createHeroVisualSidebar T lf =
     append_all (createAutoLayout VERTICAL)
       [append_all (createAutoLayout VERTICAL)
          (createTextNode T lf ''Log sinkron'' ''captionBold''
           # map (\<lambda>(time, txt). append_all (createAutoLayout HORIZONTAL)
                    [createTextNode T lf time ''captionBold'',
                     createTextNode T lf txt ''caption''])
               [(''09:42'', ''Token warna diperbarui''), (''09:10'', ''Komponen hero disalin'')]),
        append_all (createAutoLayout VERTICAL)
          [createTextNode T lf ''Pulse tim'' ''captionBold'',
           append_all (createAutoLayout VERTICAL)
             [createTextNode T lf ''18 anggota online'' ''captionBold'',
              createTextNode T lf ''Komentar baru dalam 5 menit terakhir'' ''caption'']]]"

definition createHeroVisualReviewRow :: "tokens \<Rightarrow> (FontName \<Rightarrow> thrown option) \<Rightarrow> thrown + node" where
  "createHeroVisualReviewRow T lf =
     append_all (createAutoLayout HORIZONTAL)
       [append_all (createAutoLayout HORIZONTAL)
          (map (\<lambda>color. Inr createEllipse)
             [''primary/500'', ''accent/500'', ''primary/300'', ''accent/400'']),
        createTextNode T lf ''Review selesai untuk 4 tim desain'' ''caption'']"

definition createHeroVisualContent :: "tokens \<Rightarrow> (FontName \<Rightarrow> thrown option) \<Rightarrow> thrown + node" where
  "createHeroVisualContent T lf =
     append_all (createAutoLayout VERTICAL)
       [append_all (createAutoLayout HORIZONTAL)
          [createHeroVisualMainCard T lf, createHeroVisualSidebar T lf],
        createHeroVisualReviewRow T lf]"

definition createHeroVisualBody :: "tokens \<Rightarrow> (FontName \<Rightarrow> thrown option) \<Rightarrow> thrown + node" where
  "createHeroVisualBody T lf =
     append_all (createAutoLayout VERTICAL)
       [createHeroVisualToolbar T lf, createHeroVisualContent T lf]"

definition createHeroVisualStats :: "tokens \<Rightarrow> (FontName \<Rightarrow> thrown option) \<Rightarrow> thrown + node" where
  "createHeroVisualStats T lf =
     append_all (createAutoLayout HORIZONTAL)
       (map (\<lambda>(label, val, hint). append_all (createAutoLayout VERTICAL)
               [createTextNode T lf val ''bodyBold'',
                createTextNode T lf label ''captionBold'',
                createTextNode T lf hint ''caption''])
          [(''Sync aktif'', ''Realtime'', ''Tidak ada debt''),
           (''Layout diterbitkan'', ''18'', ''+4 minggu ini''),
           (''Checklist QA'', ''12/12'', ''Lengkap'')])"

definition createHeroVisual :: "tokens \<Rightarrow> (FontName \<Rightarrow> thrown option) \<Rightarrow> thrown + node" where
  "createHeroVisual T lf =
     append_all (createAutoLayout VERTICAL)
       [createHeroVisualHeader T lf, createHeroVisualBody T lf, createHeroVisualStats T lf]"

text \<open>The rows of the two repeatable lists: a marker and the text of the item.\<close>

definition item_rows :: "tokens \<Rightarrow> (FontName \<Rightarrow> thrown option) \<Rightarrow> string \<Rightarrow> string list \<Rightarrow> (thrown + node) list" where
  "item_rows T lf pre items =
     map (\<lambda>index.
            append_all (set_name (pre @ nat_str index) (createAutoLayout HORIZONTAL))
              [Inr createRectangle,
               named (pre @ nat_str index @ '':Text'')
                 (createTextNode T lf (items ! index) ''caption'')])
       [0..<length items]"

definition createHeroSection :: "tokens \<Rightarrow> (FontName \<Rightarrow> thrown option) \<Rightarrow> thrown + node" where
  "createHeroSection T lf =
     append_all (set_name ''Section/Hero'' (createAutoLayout VERTICAL))
       [named ''Hero:SectionLabel'' (createTextNode T lf ''Section/Hero'' ''captionBold''),
        append_all (createAutoLayout HORIZONTAL)
          [named ''Hero:BadgeTitle'' (createTextNode T lf ''AI Copilot'' ''captionBold''),
           named ''Hero:BadgeSubtitle''
             (createTextNode T lf ''Automasi layout & dokumentasi'' ''caption'')],
        append_all (createAutoLayout HORIZONTAL)
          [append_all (createAutoLayout VERTICAL)
             [named ''Hero:Heading''
                (createTextNode T lf ''Bangun hero landing page siap handoff'' ''h1''),
              named ''Hero:Subheading''
                (createTextNode T lf
                   ''Integrasikan auto layout, tokens, dan dokumentasi Refigma agar developer langsung mengirim fitur tanpa revisi ulang.''
                   ''body''),
              append_all (createAutoLayout VERTICAL)
                (item_rows T lf ''Hero:Highlight:''
                   [''Token & styles tersinkron otomatis ke seluruh platform'',
                    ''Template hero, fitur, hingga testimonial siap produksi'',
                    ''Checklist QA dan dokumentasi developer selalu terbaru'']),
              append_all (createAutoLayout HORIZONTAL)
                [name_first_text ''HeroCTA:Primary:Label''
                   (named ''HeroCTA:Primary'' (createButton T lf ''Mulai sekarang'' primary)),
                 name_first_text ''HeroCTA:Secondary:Label''
                   (named ''HeroCTA:Secondary'' (createButton T lf ''Lihat panduan'' ghost))],
              append_all (createAutoLayout HORIZONTAL)
                [Inr createEllipse,
                 named ''Hero:Assurance''
                   (createTextNode T lf ''Dipercaya 120+ tim produk di Asia Tenggara''
                      ''caption'')]],
           createHeroVisual T lf],
        append_all (createAutoLayout HORIZONTAL)
          (map (\<lambda>(i, val, label, accent). createMetricCard T lf i val label accent)
             [(0, ''72%'', ''Token sinkron dalam sekali klik'', ''primary/500''),
              (1, ''2x'', ''Lebih cepat menyiapkan handoff'', ''accent/500''),
              (2, ''5 menit'', ''Update dokumen developer otomatis'', ''primary/600'')])]"

definition createTestimonialCopyColumn :: "tokens \<Rightarrow> (FontName \<Rightarrow> thrown option) \<Rightarrow> thrown + node" where
  "createTestimonialCopyColumn T lf =
     append_all (createAutoLayout VERTICAL)
       [named ''Testimonial:Quote''
          (createTextNode T lf
             (CHR 0x22 # ''Sejak Refigma, diskusi desain ke dev tinggal satu sumber kebenaran.''
                @ [CHR 0x22])
             ''h3''),
        append_all (createAutoLayout VERTICAL)
          (item_rows T lf ''Testimonial:Bullet:''
             [''Token, referensi, dan dokumentasi siap konsumsi developer.'',
              ''Stakeholder review cepat karena preview selalu up to date.'',
              ''Sprint planning lebih singkat berkat checklist QA otomatis.'']),
        append_all (createAutoLayout VERTICAL)
          [named ''Testimonial:Attribution''
             (createTextNode T lf ''Tim produk OrbitPay'' ''captionBold''),
           named ''Testimonial:AttributionRole''
             (createTextNode T lf ''Skala 12 produk digital'' ''caption'')],
        append_all (createAutoLayout HORIZONTAL)
          [named ''Testimonial:Callout''
             (createTextNode T lf ''Skor kepuasan 4.9/5'' ''captionBold'')]]"

record testimonial_data =
  td_quote :: string
  td_name :: string
  td_role :: string
  td_accent :: string
  td_metric :: "string option"

definition buildTestimonialCard :: "tokens \<Rightarrow> (FontName \<Rightarrow> thrown option) \<Rightarrow> testimonial_data \<Rightarrow> thrown + node" where
  "buildTestimonialCard T lf d =
     append_all (createAutoLayout VERTICAL)
       ([createTextNode T lf (td_quote d) ''body'',
         Inr createRectangle,
         append_all (createAutoLayout HORIZONTAL)
           [Inr createEllipse,
            append_all (createAutoLayout VERTICAL)
              [createTextNode T lf (td_name d) ''bodyBold'',
               createTextNode T lf (td_role d) ''caption'']]]
        @ (case td_metric d of
             None \<Rightarrow> []
           | Some m \<Rightarrow>
               if m = [] then []
               else [append_all (createAutoLayout HORIZONTAL)
                       [createTextNode T lf m ''captionBold'']]))"

definition testimonials :: "testimonial_data list" where
  "testimonials =
     [\<lparr>td_quote = CHR 0x22
          # ''Refigma menjadikan token dan komponen kami satu sumber kebenaran. Dev tinggal tarik.''
          @ [CHR 0x22],
        td_name = ''Salsa Pradipta'', td_role = ''VP Design DaringLabs'',
        td_accent = ''primary/500'', td_metric = Some ''55% lebih cepat''\<rparr>,
      \<lparr>td_quote = CHR 0x22
          # ''Dokumentasi developer langsung tersusun. QA tidak lagi copy manual.''
          @ [CHR 0x22],
        td_name = ''Kevin Mahardika'', td_role = ''Head of Product Lokalite'',
        td_accent = ''accent/500'', td_metric = Some ''0 bug layout''\<rparr>,
      \<lparr>td_quote = CHR 0x22
          # ''Stakeholder bisa review versi terbaru tanpa minta file tambahan.''
          @ [CHR 0x22],
        td_name = ''Chandra Tanu'', td_role = ''Founder GridStack'',
        td_accent = ''primary/400'', td_metric = Some ''3x siklus review''\<rparr>]"

definition createTestimonialCards :: "tokens \<Rightarrow> (FontName \<Rightarrow> thrown option) \<Rightarrow> thrown + node" where
  "createTestimonialCards T lf =
     append_all (createAutoLayout HORIZONTAL)
       [append_all (createAutoLayout VERTICAL)
          [buildTestimonialCard T lf (testimonials ! 0),
           buildTestimonialCard T lf (testimonials ! 1)],
        append_all (createAutoLayout VERTICAL)
          [buildTestimonialCard T lf (testimonials ! 2)]]"

definition createTestimonialSection :: "tokens \<Rightarrow> (FontName \<Rightarrow> thrown option) \<Rightarrow> thrown + node" where
  "createTestimonialSection T lf =
     append_all (set_name ''Section/Testimonials'' (createAutoLayout VERTICAL))
       [append_all (createAutoLayout VERTICAL)
          [append_all (createAutoLayout HORIZONTAL)
             [named ''Testimonial:BadgeTitle''
                (createTextNode T lf ''Suara tim produk'' ''captionBold'')],
           named ''Testimonial:Heading''
             (createTextNode T lf ''Bagaimana Refigma mempercepat kolaborasi'' ''h2''),
           named ''Testimonial:Subtitle''
             (createTextNode T lf
                ''Ritme sprint lebih ringan karena handoff, dokumentasi, dan perubahan token berjalan serentak.''
                ''body'')],
        append_all (createAutoLayout HORIZONTAL)
          [createTestimonialCopyColumn T lf, createTestimonialCards T lf]]"

definition createCTASection :: "tokens \<Rightarrow> (FontName \<Rightarrow> thrown option) \<Rightarrow> thrown + node" where
  "createCTASection T lf =
     append_all (set_name ''Section/CTA'' (createAutoLayout VERTICAL))
       [named ''CTA:Heading''
          (createTextNode T lf ''Siap menjaga konsistensi desain?'' ''h2''),
        named ''CTA:Body''
          (createTextNode T lf
             ''Aktifkan Refigma dan biarkan AI mendokumentasikan setiap keputusan desain.''
             ''body''),
        append_all (createAutoLayout HORIZONTAL)
          [name_first_text ''CTA:PrimaryLabel''
             (named ''CTA:PrimaryButton'' (createButton T lf ''Mulai gratis'' primary)),
           name_first_text ''CTA:SecondaryLabel''
             (named ''CTA:SecondaryButton'' (createButton T lf ''Lihat changelog'' ghost))]]"

text \<open>
  \<open>applyTokensDemo\<close> builds the landing frame and appends it to the current page, whose
  children are \<open>canvas\<close>. Nothing of the canvas is read, and what it holds is kept.
\<close>

definition buildLanding :: "tokens \<Rightarrow> (FontName \<Rightarrow> thrown option) \<Rightarrow> thrown + node" where
  "buildLanding T lf =
     append_all (set_name ''Template/Landing-Refigma'' (createAutoLayout VERTICAL))
       [createHeroSection T lf, createTestimonialSection T lf, createCTASection T lf]"

definition applyTokensDemo :: "tokens \<Rightarrow> (FontName \<Rightarrow> thrown option) \<Rightarrow> node list \<Rightarrow> thrown + node \<times> node list" where
  "applyTokensDemo T lf canvas =
     (case buildLanding T lf of
        Inl e \<Rightarrow> Inl e
      | Inr landing \<Rightarrow> Inr (landing, canvas @ [landing]))"

text \<open>The names that a tree assigns, parents before children.\<close>

fun node_names :: "node \<Rightarrow> string list" where
  "node_names (Node ty nm ch v fn rf cs) =
     (case nm of Some s \<Rightarrow> [s] | None \<Rightarrow> []) @ concat (map node_names cs)"

definition anchor_names :: "node \<Rightarrow> string set" where
  "anchor_names n = set (node_names n)"

text \<open>
  \<open>carries r r'\<close>: what the build \<open>r\<close> returns, if it returns, the build \<open>r'\<close> returns
  too.
\<close>

definition carries :: "thrown + node \<Rightarrow> thrown + node \<Rightarrow> bool" where
  "carries r r' = (\<forall>n. r = Inr n \<longrightarrow> r' = Inr n)"

section \<open>Generation orchestrator (refigma-plugin/src/main.ts)\<close>

text \<open>
  The values of the plugin's environment and the host functions it calls are parameters.
  \<open>fetch\<close> rejects or resolves to a response; \<open>response.json()\<close> rejects or gives the body,
  read at the two shapes the code looks for. \<open>JSON_parse\<close> is \<open>JSON.parse\<close> read at the
  type \<open>GeminiSiteContent\<close> that the code gives its result; \<open>None\<close> is a \<open>SyntaxError\<close>.
\<close>

datatype js_value = JString string | JOther

record part =
  part_text :: "string option"

record candidate =
  content_parts :: "part list option"

record json_body =
  error_message :: "string option"
  candidates :: "candidate list option"

record response =
  ok :: bool
  statusText :: string
  json :: "thrown + json_body"

record request =
  endpoint :: string
  prompt_text :: string

record host =
  loadFontAsync :: "FontName \<Rightarrow> thrown option"
  fetch :: "request \<Rightarrow> thrown + response"
  JSON_parse :: "string \<Rightarrow> GeminiSiteContent option"
  encodeURIComponent :: "string \<Rightarrow> string"
  GEMINI_API_KEY :: "string option"
  GEMINI_MODEL :: "string option"

datatype status = loading | applying | success | error

text \<open>
  What the orchestrator does to the outside: the status messages posted to the UI, the
  notifications, the requests sent to the provider, and the children of the current page.
\<close>

record world =
  statuses :: "(status \<times> string) list"
  notifications :: "string list"
  requests :: "request list"
  page :: "node list"

definition postStatus :: "status \<Rightarrow> string \<Rightarrow> world \<Rightarrow> world" where
  "postStatus s txt w = w\<lparr>statuses := statuses w @ [(s, txt)]\<rparr>"

definition notify :: "string \<Rightarrow> world \<Rightarrow> world" where
  "notify txt w = w\<lparr>notifications := notifications w @ [txt]\<rparr>"

text \<open>\<open>String.prototype.trim\<close>.\<close>

definition trim :: "string \<Rightarrow> string" where
  "trim s = rev (dropWhile is_space (rev (dropWhile is_space s)))"

definition prompt_head :: string where
  "prompt_head =

     ''Anda adalah AI copywriter dan information architect yang membantu mendesain landing page untuk plugin Figma.'' @
     [CHR 0x0A] @ ''Gunakan deskripsi berikut untuk memahami konteks: '' @ [CHR 0x22]"

definition prompt_tail :: string where
  "prompt_tail =
     [CHR 0x22] @ ''.'' @ [CHR 0x0A] @
     ''Balas HANYA dalam format JSON tanpa teks tambahan, menggunakan struktur berikut:'' @
     [CHR 0x0A] @ ''{'' @ [CHR 0x0A] @ ''  '' @ [CHR 0x22] @ ''hero'' @ [CHR 0x22] @ '': {'' @
     [CHR 0x0A] @ ''    '' @ [CHR 0x22] @ ''title'' @ [CHR 0x22] @ '': string,'' @
     [CHR 0x0A] @ ''    '' @ [CHR 0x22] @ ''subtitle'' @ [CHR 0x22] @ '': string,'' @
     [CHR 0x0A] @ ''    '' @ [CHR 0x22] @ ''primaryCta'' @ [CHR 0x22] @ '': string,'' @
     [CHR 0x0A] @ ''    '' @ [CHR 0x22] @ ''secondaryCta'' @ [CHR 0x22] @ '': string,'' @
     [CHR 0x0A] @ ''    '' @ [CHR 0x22] @ ''assurance'' @ [CHR 0x22] @ '': string,'' @
     [CHR 0x0A] @ ''    '' @ [CHR 0x22] @ ''highlights'' @ [CHR 0x22] @
     '': [string, string, string]'' @ [CHR 0x0A] @ ''  },'' @ [CHR 0x0A] @ ''  '' @
     [CHR 0x22] @ ''metrics'' @ [CHR 0x22] @ '': ['' @ [CHR 0x0A] @ ''    { '' @ [CHR 0x22] @
     ''value'' @ [CHR 0x22] @ '': string, '' @ [CHR 0x22] @ ''label'' @ [CHR 0x22] @
     '': string },'' @ [CHR 0x0A] @ ''    { '' @ [CHR 0x22] @ ''value'' @ [CHR 0x22] @
     '': string, '' @ [CHR 0x22] @ ''label'' @ [CHR 0x22] @ '': string },'' @ [CHR 0x0A] @
     ''    { '' @ [CHR 0x22] @ ''value'' @ [CHR 0x22] @ '': string, '' @ [CHR 0x22] @
     ''label'' @ [CHR 0x22] @ '': string }'' @ [CHR 0x0A] @ ''  ],'' @ [CHR 0x0A] @ ''  '' @
     [CHR 0x22] @ ''testimonial'' @ [CHR 0x22] @ '': {'' @ [CHR 0x0A] @ ''    '' @
     [CHR 0x22] @ ''heading'' @ [CHR 0x22] @ '': string,'' @ [CHR 0x0A] @ ''    '' @
     [CHR 0x22] @ ''subtitle'' @ [CHR 0x22] @ '': string,'' @ [CHR 0x0A] @ ''    '' @
     [CHR 0x22] @ ''quote'' @ [CHR 0x22] @ '': string,'' @ [CHR 0x0A] @ ''    '' @
     [CHR 0x22] @ ''bullets'' @ [CHR 0x22] @ '': [string, string, string],'' @ [CHR 0x0A] @
     ''    '' @ [CHR 0x22] @ ''attribution'' @ [CHR 0x22] @ '': string,'' @ [CHR 0x0A] @
     ''    '' @ [CHR 0x22] @ ''attributionRole'' @ [CHR 0x22] @ '': string,'' @ [CHR 0x0A] @
     ''    '' @ [CHR 0x22] @ ''callout'' @ [CHR 0x22] @ '': string'' @ [CHR 0x0A] @ ''  },'' @
     [CHR 0x0A] @ ''  '' @ [CHR 0x22] @ ''cta'' @ [CHR 0x22] @ '': {'' @ [CHR 0x0A] @
     ''    '' @ [CHR 0x22] @ ''title'' @ [CHR 0x22] @ '': string,'' @ [CHR 0x0A] @ ''    '' @
     [CHR 0x22] @ ''subtitle'' @ [CHR 0x22] @ '': string,'' @ [CHR 0x0A] @ ''    '' @
     [CHR 0x22] @ ''primaryCta'' @ [CHR 0x22] @ '': string,'' @ [CHR 0x0A] @ ''    '' @
     [CHR 0x22] @ ''secondaryCta'' @ [CHR 0x22] @ '': string'' @ [CHR 0x0A] @ ''  }'' @
     [CHR 0x0A] @ ''}'' @ [CHR 0x0A] @
     ''Isi seluruh bidang dengan kalimat yang relevan. Hindari karakter khusus yang tidak diperlukan.''"

definition buildGeminiPrompt :: "string \<Rightarrow> string" where
  "buildGeminiPrompt userPrompt = prompt_head @ userPrompt @ prompt_tail"

text \<open>The pattern of \<open>parseGeminiJson\<close>: \<open>/\{[\s\S]*\}/\<close>\<close>

definition json_rx :: rx where
  "json_rx = seqs [Lit CHR ''{'', Star (Cls (\<lambda>c. True)), Lit CHR ''}'']"

definition parseGeminiJson :: "host \<Rightarrow> string \<Rightarrow> thrown + GeminiSiteContent" where
  "parseGeminiJson h rawText =
     (case rx_search False json_rx rawText of
        None \<Rightarrow> Inl (Err ''Gemini tidak menghasilkan JSON yang valid.'')
      | Some (m, _) \<Rightarrow>
          (case JSON_parse h m of
             None \<Rightarrow> Inl (Err ''Gagal mem-parsing JSON dari Gemini.'')
           | Some c \<Rightarrow> Inr c))"

text \<open>\<open>Array.prototype.join\<close> with a separator.\<close>

fun join :: "string \<Rightarrow> string list \<Rightarrow> string" where
  "join sep [] = []"
| "join sep [x] = x"
| "join sep (x # y # ys) = x @ sep @ join sep (y # ys)"

text \<open>The text of the first candidate of a response body, as \<open>requestGeminiContent\<close>
  collects it.\<close>

definition response_text :: "json_body \<Rightarrow> string" where
  "response_text d =
     (case candidates d of
        None \<Rightarrow> []
      | Some [] \<Rightarrow> []
      | Some (c # _) \<Rightarrow>
          trim (join [CHR 0x0A]
                  (map (\<lambda>p. case part_text p of Some t \<Rightarrow> t | None \<Rightarrow> [])
                     (case content_parts c of Some ps \<Rightarrow> ps | None \<Rightarrow> []))))"

definition gemini_request :: "host \<Rightarrow> string \<Rightarrow> request" where
  "gemini_request h userPrompt =
     \<lparr>endpoint =
        ''https://generativelanguage.googleapis.com/v1beta/models/''
        @ (case GEMINI_MODEL h of Some m \<Rightarrow> m | None \<Rightarrow> ''gemini-2.5-flash'')
        @ '':generateContent?key=''
        @ encodeURIComponent h (case GEMINI_API_KEY h of Some k \<Rightarrow> k | None \<Rightarrow> []),
      prompt_text = buildGeminiPrompt userPrompt\<rparr>"

text \<open>
  \<open>requestGeminiContent\<close>: one request is sent; the result is the parsed content or the
  value thrown.
\<close>

definition requestGeminiContent :: "host \<Rightarrow> string \<Rightarrow> world \<Rightarrow> (thrown + GeminiSiteContent) \<times> world" where
  "requestGeminiContent h userPrompt w =
     (let req = gemini_request h userPrompt;
          w' = w\<lparr>requests := requests w @ [req]\<rparr>
      in case fetch h req of
           Inl e \<Rightarrow> (Inl e, w')
         | Inr resp \<Rightarrow>
             if \<not> ok resp
             then (Inl (Err (case json resp of
                               Inr b \<Rightarrow>
                                 (case error_message b of
                                    Some m \<Rightarrow> m
                                  | None \<Rightarrow> ''Gemini API error: '' @ statusText resp)
                             | Inl _ \<Rightarrow> ''Gemini API error: '' @ statusText resp)), w')
             else (case json resp of
                     Inl e \<Rightarrow> (Inl e, w')
                   | Inr d \<Rightarrow>
                       if response_text d = []
                       then (Inl (Err ''Gemini tidak mengembalikan konten.''), w')
                       else (parseGeminiJson h (response_text d), w')))"

text \<open>The \<open>catch\<close> block of \<open>handleGenerateAiSite\<close>.\<close>

definition catch_error :: "thrown \<Rightarrow> world \<Rightarrow> world" where
  "catch_error e w =
     notify ''Gagal menghasilkan website dari Gemini.''
       (postStatus error
          (case e of Err m \<Rightarrow> m | NonError \<Rightarrow> ''Terjadi kesalahan saat memanggil Gemini.'') w)"

text \<open>
  \<open>handleGenerateAiSite\<close>. The build of the scene, \<open>applyTokensDemo\<close> of tokens.ts, is the
  parameter \<open>build\<close>, so that what is proved of the orchestrator holds for every build.
  Applied to the children of the current page, a build returns the value it threw with the
  page as it left it, or the landing frame with the page as a function of that frame: the
  frame is a node of the page, and what \<open>applyGeminiContent\<close> does to the frame it does
  in the page.
\<close>

type_synonym build = "node list \<Rightarrow> (thrown \<times> node list) + (node \<times> (node \<Rightarrow> node list))"

definition handleGenerateAiSite :: "host \<Rightarrow> build \<Rightarrow> js_value \<Rightarrow> world \<Rightarrow> world" where
  "handleGenerateAiSite h applyTokens prompt w =
     (case prompt of
        JOther \<Rightarrow> postStatus error ''Masukkan prompt yang jelas untuk Gemini.'' w
      | JString p \<Rightarrow>
          if trim p = [] then postStatus error ''Masukkan prompt yang jelas untuk Gemini.'' w
          else if GEMINI_API_KEY h = None \<or> GEMINI_API_KEY h = Some []
          then notify ''Set VITE_GEMINI_API_KEY di file .env anda.''
                 (postStatus error
                    ''Konfigurasi Gemini API belum tersedia (VITE_GEMINI_API_KEY).'' w)
          else
            (let cleanedPrompt = trim p;
                 w1 = postStatus loading ''Menghubungi Gemini untuk merumuskan konten...'' w;
                 (r, w2) = requestGeminiContent h cleanedPrompt w1
             in case r of
                  Inl e \<Rightarrow> catch_error e w2
                | Inr siteContent \<Rightarrow>
                    (let w3 = postStatus applying
                           ''Menyiapkan layout Refigma berdasarkan konten Gemini...'' w2
                     in case applyTokens (page w3) of
                          Inl (e, canvas) \<Rightarrow> catch_error e (w3\<lparr>page := canvas\<rparr>)
                        | Inr (landing, put) \<Rightarrow>
                            (case applyGeminiContent (loadFontAsync h) landing siteContent of
                               Inl (e, t) \<Rightarrow> catch_error e (w3\<lparr>page := put t\<rparr>)
                             | Inr t \<Rightarrow>
                                 notify ''Website hasil Gemini sudah siap!''
                                   (postStatus success ''Website selesai digenerate di kanvas.''
                                      (w3\<lparr>page := put t\<rparr>))))))"

text \<open>
  The region that the specification describes for the extraction of the JSON text: from
  the leftmost \<open>{\<close> to the rightmost \<open>}\<close> after it.
\<close>

definition brace_region :: "string \<Rightarrow> string option" where
  "brace_region s =
     (case dropWhile (\<lambda>c. c \<noteq> CHR ''{'') s of
        [] \<Rightarrow> None
      | b # t \<Rightarrow>
          (case rev (dropWhile (\<lambda>c. c \<noteq> CHR ''}'') (rev t)) of
             [] \<Rightarrow> None
           | u \<Rightarrow> Some (b # u)))"

text \<open>The fixed messages of the errors about the format of the provider's content.\<close>

definition content_format_messages :: "string list" where
  "content_format_messages =
     [''Gemini tidak mengembalikan konten.'',
      ''Gemini tidak menghasilkan JSON yang valid.'',
      ''Gagal mem-parsing JSON dari Gemini.'']"

section \<open>Concrete inputs\<close>

text \<open>
  A host on which every font loads and a host on which no font loads.
\<close>

definition fonts_ok :: "FontName \<Rightarrow> thrown option" where
  "fonts_ok f = None"

definition fonts_fail :: "FontName \<Rightarrow> thrown option" where
  "fonts_fail f = Some (Err ''font not available'')"

text \<open>A host that has the family \<open>Inter\<close> only.\<close>

definition inter_only :: "FontName \<Rightarrow> thrown option" where
  "inter_only f = (if family f = ''Inter'' then None else Some (Err ''font not available''))"

text \<open>The landing frame that a build has returned.\<close>

definition landing_of :: "thrown + node \<times> node list \<Rightarrow> node" where
  "landing_of r = (case r of Inr (l, p) \<Rightarrow> l | Inl e \<Rightarrow> createFrame)"

text \<open>
  A landing frame with the anchors of a heading, of three highlight rows, of three metric
  cards and of one testimonial bullet, as the builders name them, each text with a prior
  content.
\<close>

definition text_anchor :: "string \<Rightarrow> string \<Rightarrow> node" where
  "text_anchor nm s =
     Node TEXT (Some nm) s True (Font \<lparr>family = ''Inter'', fstyle = ''Regular''\<rparr>) [] []"

definition frame_of :: "string \<Rightarrow> node list \<Rightarrow> node" where
  "frame_of nm cs = Node FRAME (Some nm) [] True Mixed [] cs"

definition highlight_row :: "nat \<Rightarrow> node" where
  "highlight_row i =
     frame_of (''Hero:Highlight:'' @ nat_str i)
       [Node ELLIPSE None [] True Mixed [] [],
        text_anchor (''Hero:Highlight:'' @ nat_str i @ '':Text'') (''highlight '' @ nat_str i)]"

definition metric_card :: "nat \<Rightarrow> node" where
  "metric_card i =
     frame_of (''HeroMetric:'' @ nat_str i)
       [text_anchor (''HeroMetric:'' @ nat_str i @ '':Value'') (''value '' @ nat_str i),
        text_anchor (''HeroMetric:'' @ nat_str i @ '':Label'') (''label '' @ nat_str i)]"

definition demo_landing :: node where
  "demo_landing =
     frame_of ''Refigma Landing''
       [frame_of ''Hero''
          [text_anchor ''Hero:Heading'' ''Old heading'',
           frame_of ''Hero:Highlights'' (map highlight_row [0..<3]),
           frame_of ''Hero:Metrics'' (map metric_card [0..<3])],
        frame_of ''Testimonial''
          [frame_of ''Testimonial:Bullet:0''
             [text_anchor ''Testimonial:Bullet:0:Text'' ''Old bullet'']]]"

text \<open>
  Payloads: the highlights \<open>["A", "B"]\<close>; the single metric \<open>{value: "72%"}\<close>; and a payload
  with an empty title, an empty first highlight and an empty first bullet.
\<close>

definition no_hero :: hero_content where
  "no_hero =
     \<lparr>hero_title = None, hero_subtitle = None, hero_primaryCta = None,
      hero_secondaryCta = None, hero_assurance = None, hero_highlights = None\<rparr>"

definition no_testimonial :: testimonial_content where
  "no_testimonial =
     \<lparr>testimonial_heading = None, testimonial_subtitle = None, testimonial_quote = None,
      testimonial_bullets = None, testimonial_attribution = None,
      testimonial_attributionRole = None, testimonial_callout = None\<rparr>"

definition no_content :: GeminiSiteContent where
  "no_content = \<lparr>hero = None, metrics = None, testimonial = None, cta = None\<rparr>"

definition content_AB :: GeminiSiteContent where
  "content_AB = no_content\<lparr>hero := Some (no_hero\<lparr>hero_highlights := Some [''A'', ''B'']\<rparr>)\<rparr>"

definition content_metric :: GeminiSiteContent where
  "content_metric =
     no_content\<lparr>metrics := Some [\<lparr>metric_value = Some ''72%'', metric_label = None\<rparr>]\<rparr>"

definition content_empty :: GeminiSiteContent where
  "content_empty =
     no_content
       \<lparr>hero := Some (no_hero\<lparr>hero_title := Some [], hero_highlights := Some [[], ''B'']\<rparr>),
        testimonial := Some (no_testimonial\<lparr>testimonial_bullets := Some [[]]\<rparr>)\<rparr>"

text \<open>
  A provider that answers every request with the text \<open>txt\<close>, on a host where
  \<open>JSON.parse\<close> rejects every text handed to it here; a build that gives the concrete
  landing frame as the last child of the page; and the world before anything has happened.
\<close>

definition demo_response :: "string \<Rightarrow> response" where
  "demo_response txt =
     \<lparr>ok = True, statusText = ''OK'',
      json = Inr \<lparr>error_message = None,
                  candidates = Some [\<lparr>content_parts = Some [\<lparr>part_text = Some txt\<rparr>]\<rparr>]\<rparr>\<rparr>"

definition demo_host :: "string \<Rightarrow> host" where
  "demo_host txt =
     \<lparr>loadFontAsync = fonts_ok,
      fetch = (\<lambda>r. Inr (demo_response txt)),
      JSON_parse = (\<lambda>s. None),
      encodeURIComponent = (\<lambda>s. s),
      GEMINI_API_KEY = Some ''key'',
      GEMINI_MODEL = None\<rparr>"

definition demo_build :: build where
  "demo_build canvas = Inr (demo_landing, \<lambda>l. canvas @ [l])"

definition empty_world :: world where
  "empty_world = \<lparr>statuses = [], notifications = [], requests = [], page = []\<rparr>"

section \<open>Properties of the TokenResolver\<close>

lemma inter_loop_find:
  "inter_loop w xs c =
     (case find (\<lambda>option. threshold option \<le> w) xs of Some option \<Rightarrow> option | None \<Rightarrow> c)"
  by (induction xs) auto

lemma chosenInterStyle_cases:
  "chosenInterStyle w =
     (if 700 \<le> w then INTER_STYLES ! 0
      else if 600 \<le> w then INTER_STYLES ! 1
      else if 500 \<le> w then INTER_STYLES ! 2
      else INTER_STYLES ! 3)"
  by (simp add: chosenInterStyle_def INTER_STYLES_def)

lemma chosenInterStyle_threshold:
  "threshold (chosenInterStyle w) =
     (if 700 \<le> w then 700 else if 600 \<le> w then 600 else if 500 \<le> w then 500 else 0)"
  by (simp add: chosenInterStyle_cases INTER_STYLES_def)

text \<open>
  C9. The table is in descending order of threshold and ends with threshold 0.
  \<open>resolveInterFont\<close> takes the style of the first entry whose threshold is at most the
  weight, and of the last entry when there is none; the threshold selected is monotone
  in the weight.
\<close>

theorem resolveInterFont_first_threshold_monotone:
  "sorted (rev (map threshold INTER_STYLES))
   \<and> threshold (last INTER_STYLES) = 0
   \<and> chosenInterStyle w =
       (case find (\<lambda>option. threshold option \<le> w) INTER_STYLES of
          Some option \<Rightarrow> option
        | None \<Rightarrow> last INTER_STYLES)
   \<and> resolveInterFont T w = \<lparr>family = fontFamily T, fstyle = style (chosenInterStyle w)\<rparr>
   \<and> (w1 < w2 \<longrightarrow> threshold (chosenInterStyle w1) \<le> threshold (chosenInterStyle w2))"
proof -
  have a: "sorted (rev (map threshold INTER_STYLES))"
    by (simp add: INTER_STYLES_def)
  have b: "threshold (last INTER_STYLES) = 0"
    by (simp add: INTER_STYLES_def)
  have c: "chosenInterStyle w =
       (case find (\<lambda>option. threshold option \<le> w) INTER_STYLES of
          Some option \<Rightarrow> option
        | None \<Rightarrow> last INTER_STYLES)"
    unfolding chosenInterStyle_def inter_loop_find
    by (simp add: INTER_STYLES_def)
  have d: "w1 < w2 \<longrightarrow> threshold (chosenInterStyle w1) \<le> threshold (chosenInterStyle w2)"
    by (simp add: chosenInterStyle_threshold)
  from a b c d show ?thesis
    by (simp add: resolveInterFont_def)
qed

theorem resolveInterFont_first_threshold_monotone_witness:
  "(550::real) < 650
   \<and> threshold (chosenInterStyle 550) = 500
   \<and> threshold (chosenInterStyle 650) = 600
   \<and> threshold (chosenInterStyle 550) \<le> threshold (chosenInterStyle 650)"
proof -
  have lt: "(550::real) < 650" by simp
  have "threshold (chosenInterStyle 550) \<le> threshold (chosenInterStyle 650)"
    using resolveInterFont_first_threshold_monotone [of 550 demo_tokens 550 650] lt by blast
  then show ?thesis
    by (simp add: chosenInterStyle_threshold)
qed

lemma split_on_no_sep: "c \<notin> set s \<Longrightarrow> split_on c s = [s]"
  by (induction s) auto

lemma token_parts_no_slash: "CHR ''/'' \<notin> set token \<Longrightarrow> token_parts token = (token, [])"
  by (simp add: token_parts_def split_on_no_sep)

lemma getColor_by_group:
  "getColor R T theme token =
     (case resolved_group R T theme token of
        Inl e \<Rightarrow> Inl e
      | Inr grp \<Rightarrow>
          if \<not> truthy grp then Inr (Str DEFAULT_COLOR)
          else if is_string grp then Inr grp
          else if snd (token_parts token) = []
          then in_then_get R ''500'' grp
                 (in_then_get R (snd (token_parts token)) grp (Inr (Str DEFAULT_COLOR)))
          else in_then_get R (snd (token_parts token)) grp (Inr (Str DEFAULT_COLOR)))"
proof (cases "token_parts token")
  case (Pair g sh)
  then show ?thesis
    unfolding getColor_def resolved_group_def Let_def
    by (auto split: sum.split)
qed

lemma map_of_shades:
  "map_of (map (\<lambda>(k, c). (k, Str c)) grp) k = map_option Str (map_of grp k)"
  by (induction grp) auto

lemma in_then_get_shades:
  assumes "\<not> proto_has R k"
  shows "in_then_get R k (group_val (Shades grp)) otherwise =
           (case map_of grp k of Some c \<Rightarrow> Inr (Str c) | None \<Rightarrow> otherwise)"
  using assms
  by (simp add: in_then_get_def js_in_def js_get_def map_of_shades split: option.split)

lemma map_of_the_snd:
  assumes "map_of xs k \<noteq> None"
  shows "the (map_of xs k) \<in> snd ` set xs"
proof -
  from assms obtain v where v: "map_of xs k = Some v" by blast
  then have "(k, v) \<in> set xs" by (rule map_of_SomeD)
  then have "v \<in> snd ` set xs" by force
  with v show ?thesis by simp
qed

lemma schema_colors_member:
  assumes "map_of (colors T) th = Some groups" and "map_of groups g = Some cg"
    and "c \<in> set (group_values cg)"
  shows "c \<in> set (schema_colors T)"
proof -
  from assms(1) have t: "(th, groups) \<in> set (colors T)" by (rule map_of_SomeD)
  from assms(2) have "(g, cg) \<in> set groups" by (rule map_of_SomeD)
  with assms(3) have "c \<in> set (concat (map (group_values \<circ> snd) groups))"
    by (auto intro!: bexI [of _ "(g, cg)"])
  with t show ?thesis
    unfolding schema_colors_def by (auto intro!: bexI [of _ "(th, groups)"])
qed

lemma getColor_shades:
  assumes "resolved_group R T theme token = Inr (group_val (Shades grp))"
    and "\<not> proto_has R ''500''" and "\<not> proto_has R (snd (token_parts token))"
  shows "getColor R T theme token =
           Inr (Str (if snd (token_parts token) = [] \<and> map_of grp ''500'' \<noteq> None
                     then the (map_of grp ''500'')
                     else if map_of grp (snd (token_parts token)) \<noteq> None
                     then the (map_of grp (snd (token_parts token)))
                     else DEFAULT_COLOR))"
proof -
  have t: "truthy (group_val (Shades grp))" "\<not> is_string (group_val (Shades grp))"
    by (simp_all add: truthy_def is_string_def)
  have g: "getColor R T theme token =
      (if snd (token_parts token) = []
       then in_then_get R ''500'' (group_val (Shades grp))
              (in_then_get R (snd (token_parts token)) (group_val (Shades grp))
                 (Inr (Str DEFAULT_COLOR)))
       else in_then_get R (snd (token_parts token)) (group_val (Shades grp))
              (Inr (Str DEFAULT_COLOR)))"
    unfolding getColor_by_group assms(1) using t by (simp del: group_val.simps)
  show ?thesis
    unfolding g in_then_get_shades [OF assms(2)] in_then_get_shades [OF assms(3)]
    by (auto split: option.split)
qed

text \<open>
  C1, as the code has it. When the resolved group is a shade map, and neither \<open>500\<close> nor
  the requested shade is the name of a property that objects inherit: with the shade
  omitted (no \<open>/\<close> in the token) the entry \<open>500\<close> is returned if the group has one;
  otherwise the entry of the requested shade is returned if the group has it; in every
  other case the fixed default colour is returned. So a requested shade that is missing
  gives the default colour whether or not the group has an entry \<open>500\<close>.
\<close>

theorem getColor_shade_map:
  assumes "resolved_group R T theme token = Inr (group_val (Shades grp))"
    and "\<not> proto_has R ''500''" and "\<not> proto_has R (snd (token_parts token))"
  shows "getColor R T theme token =
           Inr (Str (if snd (token_parts token) = [] \<and> map_of grp ''500'' \<noteq> None
                     then the (map_of grp ''500'')
                     else if map_of grp (snd (token_parts token)) \<noteq> None
                     then the (map_of grp (snd (token_parts token)))
                     else DEFAULT_COLOR))
         \<and> (CHR ''/'' \<notin> set token \<longrightarrow> snd (token_parts token) = [])
         \<and> (snd (token_parts token) \<noteq> [] \<longrightarrow> map_of grp (snd (token_parts token)) = None
              \<longrightarrow> getColor R T theme token = Inr (Str DEFAULT_COLOR))"
  using getColor_shades [OF assms] by (simp add: token_parts_no_slash)

theorem getColor_shade_map_witness:
  "resolved_group demo_realm demo_tokens ''light'' ''primary'' =
     Inr (group_val (Shades [(''500'', ''#3366FF''), (''600'', ''#254EDB'')]))
   \<and> \<not> proto_has demo_realm ''500'' \<and> \<not> proto_has demo_realm []
   \<and> getColor demo_realm demo_tokens ''light'' ''primary'' = Inr (Str ''#3366FF'')"
proof -
  have g: "resolved_group demo_realm demo_tokens ''light'' ''primary'' =
     Inr (group_val (Shades [(''500'', ''#3366FF''), (''600'', ''#254EDB'')]))"
    by (simp add: resolved_group_def demo_tokens_def demo_realm_def token_parts_def
        DEFAULT_THEME_def js_get_def colors_val_def theme_val_def truthy_def
        object_prototype_names_def)
  have p: "token_parts ''primary'' = (''primary'', [])"
    by (simp add: token_parts_def)
  have h: "\<not> proto_has demo_realm ''500''" "\<not> proto_has demo_realm (snd (token_parts ''primary''))"
    by (simp_all add: demo_realm_def object_prototype_names_def p)
  from getColor_shade_map [OF g h] p g h show ?thesis
    by simp
qed

text \<open>
  C1 as written fails: \<open>primary/900\<close> asks for a shade that the group \<open>primary\<close> does
  not have, the group has an entry \<open>500\<close>, and the result is the default colour, not
  that entry.
\<close>

theorem getColor_missing_shade_counterexample:
  "resolved_group demo_realm demo_tokens ''light'' ''primary/900'' =
     Inr (group_val (Shades [(''500'', ''#3366FF''), (''600'', ''#254EDB'')]))
   \<and> map_of [(''500'', ''#3366FF''), (''600'', ''#254EDB'')] ''500'' = Some ''#3366FF''
   \<and> getColor demo_realm demo_tokens ''light'' ''primary/900'' = Inr (Str ''#000000'')
   \<and> getColor demo_realm demo_tokens ''light'' ''primary/900'' \<noteq> Inr (Str ''#3366FF'')"
  by (simp add: getColor_def resolved_group_def demo_tokens_def demo_realm_def token_parts_def
      DEFAULT_THEME_def DEFAULT_COLOR_def js_get_def js_in_def in_then_get_def colors_val_def
      theme_val_def truthy_def is_string_def object_prototype_names_def)

text \<open>
  Where no name is inherited, \<open>getColor\<close> falls back as intended: with a schema that
  has the default theme, a theme, group and shade that are not names of inherited
  properties give the default colour or a colour string of the schema, without a throw,
  and a theme that the schema does not have gives the result of the default theme.
\<close>

lemma js_get_colors:
  assumes "\<not> proto_has R theme"
  shows "js_get R (colors_val T) theme =
           Inr (case map_of (colors T) theme of Some th \<Rightarrow> theme_val th | None \<Rightarrow> Undefined)"
proof -
  have "map_of (map (\<lambda>(k, th). (k, theme_val th)) (colors T)) theme
      = map_option theme_val (map_of (colors T) theme)"
    by (induction "colors T" arbitrary: T) (auto simp: map_of_map)
  then show ?thesis
    using assms by (simp add: js_get_def colors_val_def split: option.split)
qed

lemma js_get_colors_own:
  assumes "map_of (colors T) theme = Some th"
  shows "js_get R (colors_val T) theme = Inr (theme_val th)"
proof -
  have "map_of (map (\<lambda>(k, th). (k, theme_val th)) (colors T)) theme
      = map_option theme_val (map_of (colors T) theme)"
    by (induction "colors T" arbitrary: T) (auto simp: map_of_map)
  then show ?thesis
    using assms by (simp add: js_get_def colors_val_def)
qed

lemma js_get_theme:
  assumes "\<not> proto_has R g"
  shows "js_get R (theme_val groups) g =
           Inr (case map_of groups g of Some cg \<Rightarrow> group_val cg | None \<Rightarrow> Undefined)"
proof -
  have "map_of (map (\<lambda>(k, cg). (k, group_val cg)) groups) g
      = map_option group_val (map_of groups g)"
    by (induction groups) auto
  then show ?thesis
    using assms by (simp add: js_get_def theme_val_def split: option.split)
qed

lemma getColor_own_names:
  assumes d: "map_of (colors T) DEFAULT_THEME \<noteq> None"
    and nt: "\<not> proto_has R theme" and ng: "\<not> proto_has R (fst (token_parts token))"
    and ns: "\<not> proto_has R (snd (token_parts token))" and n5: "\<not> proto_has R ''500''"
  shows "(\<exists>c. getColor R T theme token = Inr (Str c)
              \<and> (c = DEFAULT_COLOR \<or> c \<in> set (schema_colors T)))
         \<and> (map_of (colors T) theme = None \<longrightarrow>
              getColor R T theme token = getColor R T DEFAULT_THEME token)"
proof -
  define rt where "rt = (if map_of (colors T) theme \<noteq> None then theme else DEFAULT_THEME)"
  from d have "map_of (colors T) rt \<noteq> None"
    by (cases "map_of (colors T) theme") (simp_all add: rt_def)
  then obtain groups where groups: "map_of (colors T) rt = Some groups"
    by blast
  from d obtain dgroups where dgroups: "map_of (colors T) DEFAULT_THEME = Some dgroups"
    by blast
  have tr: "truthy (theme_val x)" for x
    by (simp add: truthy_def theme_val_def)
  have tu: "\<not> truthy Undefined"
    by (simp add: truthy_def)
  have th: "(if truthy (case map_of (colors T) theme of Some th \<Rightarrow> theme_val th | None \<Rightarrow> Undefined)
             then theme else DEFAULT_THEME) = rt"
    by (cases "map_of (colors T) theme") (simp_all add: rt_def tr tu)
  have rg: "resolved_group R T theme token =
      Inr (case map_of groups (fst (token_parts token)) of
             Some cg \<Rightarrow> group_val cg | None \<Rightarrow> Undefined)"
    unfolding resolved_group_def js_get_colors [OF nt]
    by (simp add: th js_get_colors_own [OF groups] js_get_theme [OF ng])
  have drg: "resolved_group R T DEFAULT_THEME token =
      Inr (case map_of dgroups (fst (token_parts token)) of
             Some cg \<Rightarrow> group_val cg | None \<Rightarrow> Undefined)"
    unfolding resolved_group_def
    by (simp add: js_get_colors_own [OF dgroups] tr js_get_theme [OF ng])
  have fallback: "map_of (colors T) theme = None \<longrightarrow>
      getColor R T theme token = getColor R T DEFAULT_THEME token"
  proof
    assume "map_of (colors T) theme = None"
    then have "rt = DEFAULT_THEME" by (simp add: rt_def)
    with groups dgroups have "groups = dgroups" by simp
    with rg drg show "getColor R T theme token = getColor R T DEFAULT_THEME token"
      by (simp add: getColor_by_group)
  qed
  have "\<exists>c. getColor R T theme token = Inr (Str c) \<and> (c = DEFAULT_COLOR \<or> c \<in> set (schema_colors T))"
  proof (cases "map_of groups (fst (token_parts token))")
    case None
    then show ?thesis
      by (simp add: getColor_by_group rg truthy_def)
  next
    case (Some cg)
    show ?thesis
    proof (cases cg)
      case (Single s)
      with Some groups have "s \<in> set (schema_colors T)"
        by (auto intro: schema_colors_member)
      with Some Single show ?thesis
        by (simp add: getColor_by_group rg truthy_def is_string_def)
    next
      case (Shades grp)
      have m: "\<And>k. map_of grp k \<noteq> None \<Longrightarrow> the (map_of grp k) \<in> set (schema_colors T)"
        using schema_colors_member [OF groups Some] Shades map_of_the_snd [of grp] by auto
      have "resolved_group R T theme token = Inr (group_val (Shades grp))"
        using rg Some Shades by simp
      from getColor_shades [OF this n5 ns] m show ?thesis
        by auto
    qed
  qed
  with fallback show ?thesis by simp
qed

text \<open>
  C8 fails on the code for names that objects inherit. In the theme \<open>light\<close> the token
  \<open>constructor/name\<close> reads the function \<open>Object\<close> as the group and returns its name, the
  string \<open>"Object"\<close>, which is neither a colour of the schema nor the default colour, and
  \<open>constructor/length\<close> returns a number. The theme \<open>constructor\<close> is not in the schema, but
  the read of \<open>tokens.colors["constructor"]\<close> is truthy, so there is no fall back to the
  default theme: \<open>primary/500\<close> gives the default colour and not the default theme's
  \<open>primary/500\<close>, and the token \<open>length\<close> throws, because \<open>'500' in 1\<close> is a \<open>TypeError\<close>.
\<close>

theorem getColor_inherited_names:
  "getColor demo_realm demo_tokens ''light'' ''constructor/name'' = Inr (Str ''Object'')
   \<and> ''Object'' \<noteq> DEFAULT_COLOR \<and> ''Object'' \<notin> set (schema_colors demo_tokens)
   \<and> getColor demo_realm demo_tokens ''light'' ''constructor/length'' = Inr (Prim True)
   \<and> map_of (colors demo_tokens) ''constructor'' = None
   \<and> getColor demo_realm demo_tokens ''constructor'' ''primary/500'' = Inr (Str ''#000000'')
   \<and> getColor demo_realm demo_tokens DEFAULT_THEME ''primary/500'' = Inr (Str ''#3366FF'')
   \<and> getColor demo_realm demo_tokens ''constructor'' ''length'' = Inl TypeError"
  by (simp add: getColor_def demo_tokens_def demo_realm_def token_parts_def
      DEFAULT_THEME_def DEFAULT_COLOR_def js_get_def js_in_def in_then_get_def colors_val_def
      theme_val_def truthy_def is_string_def object_prototype_names_def schema_colors_def)

section \<open>Properties of the regular expressions and of the ColorCodec\<close>

lemma star_iter_cls:
  assumes "\<forall>c\<in>set w. p c" and "s = [] \<or> \<not> p (hd s)"
  shows "star_iter (rx_match i (Cls p)) (length (w @ s)) (w @ s, cs) =
           map (\<lambda>t. (t @ s, cs)) (suffixes w)"
  using assms
proof (induction w)
  case Nil
  then show ?case by (cases s) auto
next
  case (Cons x w)
  then show ?case by simp
qed

lemma rx_match_star_cls:
  assumes "\<forall>c\<in>set w. p c" and "s = [] \<or> \<not> p (hd s)"
  shows "rx_match i (Star (Cls p)) (w @ s, cs) = map (\<lambda>t. (t @ s, cs)) (suffixes w)"
  using star_iter_cls [OF assms] by simp




















lemma rx_match_Lit_other:
  assumes "to_upper x \<noteq> to_upper c" and "x \<noteq> c"
  shows "rx_match i (Lit c) (x # s, cs) = []"
  using assms by (simp add: lit_eq_def)










section \<open>The content application engine: what the statements do\<close>

lemma topology_sel [simp]:
  "ntype (topology n) = ntype n" "name (topology n) = name n"
  "children (topology n) = map topology (children n)"
  by (cases n; simp)+

lemma topology_update_at:
  assumes "\<And>n. ntype (f n) = ntype n \<and> name (f n) = name n \<and> children (f n) = children n"
  shows "topology (update_at f p t) = topology t"
proof (induction p arbitrary: t)
  case Nil
  show ?case
    using assms [of t] by (cases t; cases "f t") simp
next
  case (Cons i p)
  show ?case
  proof (cases t)
    case (Node ty nm ch v fn rf cs)
    show ?thesis
    proof (cases "i < length cs")
      case True
      have "map topology (cs[i := update_at f p (cs ! i)]) = (map topology cs)[i := topology (cs ! i)]"
        by (simp add: map_update Cons.IH)
      also have "\<dots> = map topology cs"
        using True by (simp add: list_update_same_conv)
      finally show ?thesis using Node True by simp
    next
      case False
      with Node show ?thesis by simp
    qed
  qed
qed

lemma find_from_topology:
  "find_from (\<lambda>n. Q (ntype n) (name n)) (map topology cs) k
     = find_from (\<lambda>n. Q (ntype n) (name n)) cs k"
proof (induction "\<lambda>n. Q (ntype n) (name n)" cs k rule: find_from.induct)
  case (1 k)
  show ?case by simp
next
  case (2 ty nm ch v fn rf cs rest k)
  then show ?case by (simp split: option.split)
qed

lemma findOne_topology:
  "findOne (\<lambda>n. Q (ntype n) (name n)) (topology t) = findOne (\<lambda>n. Q (ntype n) (name n)) t"
  by (simp add: findOne_def find_from_topology)

lemma findOne_update_at:
  assumes "\<And>n. ntype (f n) = ntype n \<and> name (f n) = name n \<and> children (f n) = children n"
  shows "findOne (\<lambda>n. Q (ntype n) (name n)) (update_at f p t)
           = findOne (\<lambda>n. Q (ntype n) (name n)) t"
  using findOne_topology [of Q "update_at f p t"] findOne_topology [of Q t]
    topology_update_at [of f p t, OF assms]
  by simp

lemma find_from_sound:
  "find_from P cs k = Some p \<Longrightarrow>
     \<exists>i q n. p = (k + i) # q \<and> i < length cs \<and> node_at (cs ! i) q = Some n \<and> P n"
proof (induction P cs k arbitrary: p rule: find_from.induct)
  case (1 P k)
  then show ?case by simp
next
  case (2 P ty nm ch v fn rf cs rest k)
  let ?n = "Node ty nm ch v fn rf cs"
  show ?case
  proof (cases "P ?n")
    case True
    with 2(3) have "p = (k + 0) # []" by simp
    with True show ?thesis by (intro exI [of _ 0] exI [of _ "[]"] exI [of _ ?n]) simp
  next
    case nP: False
    show ?thesis
    proof (cases "find_from P cs 0")
      case (Some q)
      with nP 2(3) have p: "p = k # q" by simp
      from 2(1) [OF nP Some] obtain i q' n where
        "q = (0 + i) # q'" "i < length cs" "node_at (cs ! i) q' = Some n" "P n" by blast
      then have "node_at ?n q = Some n" by simp
      with p \<open>P n\<close> show ?thesis
        by (intro exI [of _ 0] exI [of _ q] exI [of _ n]) simp
    next
      case None
      with nP 2(3) have "find_from P rest (Suc k) = Some p" by simp
      from 2(2) [OF nP None this] obtain i q n where
        "p = (Suc k + i) # q" "i < length rest" "node_at (rest ! i) q = Some n" "P n" by blast
      then show ?thesis
        by (intro exI [of _ "Suc i"] exI [of _ q] exI [of _ n]) simp
    qed
  qed
qed

lemma findOne_sound:
  assumes "findOne P t = Some p"
  shows "\<exists>n. node_at t p = Some n \<and> P n"
proof -
  from find_from_sound [OF assms [unfolded findOne_def]]
  obtain i q n where "p = (0 + i) # q" "i < length (children t)"
    "node_at (children t ! i) q = Some n" "P n" by blast
  then show ?thesis by auto
qed


lemma node_at_update_same:
  "node_at t p = Some n \<Longrightarrow> node_at (update_at f p t) p = Some (f n)"
proof (induction p arbitrary: t)
  case Nil
  then show ?case by simp
next
  case (Cons i p)
  then show ?case by (cases t) (auto split: if_splits)
qed

lemma node_at_update_other:
  assumes ch: "\<And>n. children (f n) = children n"
    and g: "\<And>ty nm c v fn rf cs cs'. g (Node ty nm c v fn rf cs) = g (Node ty nm c v fn rf cs')"
    and ne: "p \<noteq> q"
  shows "map_option g (node_at (update_at f p t) q) = map_option g (node_at t q)"
  using ne
proof (induction p arbitrary: q t)
  case Nil
  then obtain i q' where q: "q = i # q'" by (cases q) auto
  show ?case by (simp add: q ch)
next
  case (Cons j p)
  show ?case
  proof (cases t)
    case (Node ty nm c v fn rf cs)
    show ?thesis
    proof (cases "j < length cs")
      case False
      with Node show ?thesis by simp
    next
      case True
      show ?thesis
      proof (cases q)
        case Nil
        with Node True show ?thesis
          using g [of ty nm c v fn rf "cs[j := update_at f p (cs ! j)]" cs] by simp
      next
        case (Cons i q')
        show ?thesis
        proof (cases "i = j")
          case True
          with Cons Cons.prems have "p \<noteq> q'" by simp
          from Cons.IH [OF this, of "cs ! j"] Node Cons True \<open>j < length cs\<close>
          show ?thesis by simp
        next
          case False
          with Node Cons True show ?thesis by simp
        qed
      qed
    qed
  qed
qed

lemma set_sel [simp]:
  "ntype (set_characters s n) = ntype n" "name (set_characters s n) = name n"
  "children (set_characters s n) = children n" "characters (set_characters s n) = s"
  "visible (set_characters s n) = visible n"
  "ntype (set_visible b n) = ntype n" "name (set_visible b n) = name n"
  "children (set_visible b n) = children n" "characters (set_visible b n) = characters n"
  "visible (set_visible b n) = b"
  by (simp_all add: set_characters_def set_visible_def)

lemma findText_update [simp]:
  "findText (update_at (set_characters s) p t) nm = findText t nm"
  "findText (update_at (set_visible b) p t) nm = findText t nm"
  unfolding findText_def
  by (rule findOne_update_at [of _ "\<lambda>ty n. ty = TEXT \<and> n = Some nm"], simp)+

lemma findNamed_update [simp]:
  "findNamed (update_at (set_characters s) p t) nm = findNamed t nm"
  "findNamed (update_at (set_visible b) p t) nm = findNamed t nm"
  unfolding findNamed_def
  by (rule findOne_update_at [of _ "\<lambda>ty n. n = Some nm"], simp)+

lemma findText_sound:
  "findText t nm = Some p \<Longrightarrow> \<exists>n. node_at t p = Some n \<and> ntype n = TEXT \<and> name n = Some nm"
  unfolding findText_def by (drule findOne_sound) simp

lemma findNamed_sound:
  "findNamed t nm = Some p \<Longrightarrow> \<exists>n. node_at t p = Some n \<and> name n = Some nm"
  unfolding findNamed_def by (drule findOne_sound) simp

lemma text_of_None: "text_of t nm = None \<longleftrightarrow> findText t nm = None"
  by (auto simp: text_of_def split: option.splits dest: findText_sound)

lemma vis_of_None: "vis_of t nm = None \<longleftrightarrow> findNamed t nm = None"
  by (auto simp: vis_of_def split: option.splits dest: findNamed_sound)

lemma characters_indep:
  "characters (Node ty nm c v fn rf cs) = characters (Node ty nm c v fn rf cs')"
  by simp

lemma visible_indep:
  "visible (Node ty nm c v fn rf cs) = visible (Node ty nm c v fn rf cs')"
  by simp

lemma name_indep:
  "name (Node ty nm c v fn rf cs) = name (Node ty nm c v fn rf cs')"
  by simp

text \<open>Two lookups by different names end at different nodes.\<close>

lemma findText_paths_differ:
  assumes "findText t nm = Some p" and "findText t nm' = Some q" and "nm \<noteq> nm'"
  shows "p \<noteq> q"
  using findText_sound [OF assms(1)] findText_sound [OF assms(2)] assms(3) by auto

lemma findNamed_paths_differ:
  assumes "findNamed t nm = Some p" and "findNamed t nm' = Some q" and "nm \<noteq> nm'"
  shows "p \<noteq> q"
  using findNamed_sound [OF assms(1)] findNamed_sound [OF assms(2)] assms(3) by auto

lemma text_of_set_characters:
  assumes "findText t nm = Some p"
  shows "text_of (update_at (set_characters s) p t) k = (if k = nm then Some s else text_of t k)"
proof (cases "k = nm")
  case True
  from findText_sound [OF assms] obtain n where "node_at t p = Some n" by blast
  from node_at_update_same [OF this, of "set_characters s"] assms True
  show ?thesis by (simp add: text_of_def)
next
  case False
  show ?thesis
  proof (cases "findText t k")
    case None
    with False show ?thesis by (simp add: text_of_def)
  next
    case (Some q)
    with assms False have "p \<noteq> q" using findText_paths_differ by blast
    from node_at_update_other [of "set_characters s" characters, OF _ characters_indep this]
    show ?thesis using False Some by (simp add: text_of_def)
  qed
qed

lemma vis_of_set_characters:
  "vis_of (update_at (set_characters s) p t) k = vis_of t k"
proof (cases "findNamed t k")
  case None
  then show ?thesis by (simp add: vis_of_def)
next
  case (Some q)
  show ?thesis
  proof (cases "p = q")
    case True
    from findNamed_sound [OF Some] obtain n where n: "node_at t q = Some n" by blast
    from node_at_update_same [OF this, of "set_characters s"] n True Some
    show ?thesis by (simp add: vis_of_def)
  next
    case False
    from node_at_update_other [of "set_characters s" visible, OF _ visible_indep this]
    show ?thesis using Some by (simp add: vis_of_def)
  qed
qed

lemma text_of_set_visible:
  "text_of (update_at (set_visible b) p t) k = text_of t k"
proof (cases "findText t k")
  case None
  then show ?thesis by (simp add: text_of_def)
next
  case (Some q)
  show ?thesis
  proof (cases "p = q")
    case True
    from findText_sound [OF Some] obtain n where n: "node_at t q = Some n" by blast
    from node_at_update_same [OF this, of "set_visible b"] n True Some
    show ?thesis by (simp add: text_of_def)
  next
    case False
    from node_at_update_other [of "set_visible b" characters, OF _ characters_indep this]
    show ?thesis using Some by (simp add: text_of_def)
  qed
qed

lemma vis_of_set_visible:
  assumes "findNamed t nm = Some p"
  shows "vis_of (update_at (set_visible b) p t) k = (if k = nm then Some b else vis_of t k)"
proof (cases "k = nm")
  case True
  from findNamed_sound [OF assms] obtain n where "node_at t p = Some n" by blast
  from node_at_update_same [OF this, of "set_visible b"] assms True
  show ?thesis by (simp add: vis_of_def)
next
  case False
  show ?thesis
  proof (cases "findNamed t k")
    case None
    with False show ?thesis by (simp add: vis_of_def)
  next
    case (Some q)
    with assms False have "p \<noteq> q" using findNamed_paths_differ by blast
    from node_at_update_other [of "set_visible b" visible, OF _ visible_indep this]
    show ?thesis using False Some by (simp add: vis_of_def)
  qed
qed

lemma setTextByName_effect: "step_effect (setTextByName lf nm val) (obs_setText nm val)"
  unfolding step_effect_def
proof
  fix t
  show "case setTextByName lf nm val t of
          Inl (e, t') \<Rightarrow> t' = t
        | Inr t' \<Rightarrow> obs_of t' = obs_setText nm val (obs_of t)"
  proof (cases "findText t nm")
    case None
    then have "text_of t nm = None" by (simp add: text_of_None)
    with None show ?thesis
      by (simp add: setTextByName_def setText_def obs_setText_def obs_of_def has_text_def)
  next
    case (Some p)
    from findText_sound [OF Some] obtain n where n: "node_at t p = Some n" by blast
    have ex: "text_of t nm \<noteq> None" using Some by (simp add: text_of_None)
    show ?thesis
    proof (cases val)
      case None
      with Some show ?thesis
        by (simp add: setTextByName_def setText_def obs_setText_def obs_of_def has_text_def)
    next
      case v: (Some v)
      show ?thesis
      proof (cases "load_fonts lf n")
        case (Some e)
        with \<open>findText t nm = Some p\<close> n v show ?thesis
          by (simp add: setTextByName_def setText_def)
      next
        case None
        have "text_of (update_at (set_characters v) p t) = (\<lambda>k. if k = nm then Some v else text_of t k)"
          using text_of_set_characters [OF Some, of v] by (intro ext) simp
        moreover have "vis_of (update_at (set_characters v) p t) = vis_of t"
          using vis_of_set_characters by (intro ext) simp
        ultimately show ?thesis
          using None \<open>findText t nm = Some p\<close> n v ex
          by (simp add: setTextByName_def setText_def obs_setText_def obs_of_def has_text_def cong: if_cong)
      qed
    qed
  qed
qed


lemma obs_of_row_visible:
  "obs_of (case findNamed t rn of Some p \<Rightarrow> update_at (set_visible b) p t | None \<Rightarrow> t)
      = (text_of t, \<lambda>k. if k = rn \<and> vis_of t k \<noteq> None then Some b else vis_of t k)"
proof (cases "findNamed t rn")
  case None
  then have "vis_of t rn = None" by (simp add: vis_of_None)
  then have "(\<lambda>k. if k = rn \<and> vis_of t k \<noteq> None then Some b else vis_of t k) = vis_of t"
    by (intro ext) auto
  with None show ?thesis by (simp add: obs_of_def)
next
  case (Some q)
  then have "vis_of t rn \<noteq> None" by (simp add: vis_of_None)
  then have "(\<lambda>k. if k = rn \<and> vis_of t k \<noteq> None then Some b else vis_of t k)
      = (\<lambda>k. if k = rn then Some b else vis_of t k)"
    by (intro ext) auto
  moreover have "text_of (update_at (set_visible b) q t) = text_of t"
    using text_of_set_visible by (intro ext) simp
  moreover have "vis_of (update_at (set_visible b) q t) = (\<lambda>k. if k = rn then Some b else vis_of t k)"
    using vis_of_set_visible [OF Some] by (intro ext) simp
  ultimately show ?thesis using Some by (simp add: obs_of_def)
qed

lemma row_used_iff:
  "row_used pre items i (obs_of t) \<longleftrightarrow>
     item_at items i \<noteq> None \<and> item_at items i \<noteq> Some []
     \<and> findText t (pre @ nat_str i @ '':Text'') \<noteq> None"
  by (simp add: row_used_def obs_of_def text_of_None has_text_def)

lemma row_step_unused:
  assumes "\<not> row_used pre items i (obs_of t)"
  shows "row_step lf pre items i t
        = Inr (case findNamed t (pre @ nat_str i) of
                 Some p \<Rightarrow> update_at (set_visible False) p t
               | None \<Rightarrow> t)"
proof -
  from assms have "\<not> (item_at items i \<noteq> None \<and> item_at items i \<noteq> Some []
     \<and> findText t (pre @ nat_str i @ '':Text'') \<noteq> None)"
    using row_used_iff by blast
  then show ?thesis
    unfolding row_step_def Let_def by (simp only: if_False split: option.split) simp
qed

lemma row_step_used:
  assumes "row_used pre items i (obs_of t)"
    and p: "findText t (pre @ nat_str i @ '':Text'') = Some p" and n: "node_at t p = Some n"
    and v: "item_at items i = Some v"
  shows "row_step lf pre items i t =
     (case load_fonts lf n of
        Some e \<Rightarrow> Inl (e, t)
      | None \<Rightarrow>
          Inr (case findNamed (update_at (set_characters v) p t) (pre @ nat_str i) of
                 Some q \<Rightarrow> update_at (set_visible True) q (update_at (set_characters v) p t)
               | None \<Rightarrow> update_at (set_characters v) p t))"
proof -
  from assms(1) have c: "item_at items i \<noteq> None \<and> item_at items i \<noteq> Some []
     \<and> findText t (pre @ nat_str i @ '':Text'') \<noteq> None"
    using row_used_iff by blast
  show ?thesis
    unfolding row_step_def Let_def
    by (simp only: c if_True) (simp add: setText_def p n v split: option.split)
qed

lemma obs_row_unused:
  assumes "\<not> row_used pre items i (obs_of t)"
  shows "obs_row pre items i (obs_of t)
        = (text_of t, \<lambda>k. if k = pre @ nat_str i \<and> vis_of t k \<noteq> None then Some False else vis_of t k)"
  using assms unfolding obs_row_def by (auto simp: obs_of_def fun_eq_iff has_vis_def)

lemma obs_row_used:
  assumes "row_used pre items i (obs_of t)" and "item_at items i = Some v"
  shows "obs_row pre items i (obs_of t)
        = (\<lambda>k. if k = pre @ nat_str i @ '':Text'' then Some v else text_of t k,
           \<lambda>k. if k = pre @ nat_str i \<and> vis_of t k \<noteq> None then Some True else vis_of t k)"
  using assms unfolding obs_row_def by (auto simp: obs_of_def fun_eq_iff has_vis_def)

lemma row_step_effect: "step_effect (row_step lf pre items i) (obs_row pre items i)"
  unfolding step_effect_def
proof
  fix t
  let ?tn = "pre @ nat_str i @ '':Text''"
  let ?rn = "pre @ nat_str i"
  show "case row_step lf pre items i t of
          Inl (e, t') \<Rightarrow> t' = t
        | Inr t' \<Rightarrow> obs_of t' = obs_row pre items i (obs_of t)"
  proof (cases "row_used pre items i (obs_of t)")
    case False
    show ?thesis
      unfolding row_step_unused [OF False] obs_row_unused [OF False]
      by (simp only: sum.case obs_of_row_visible)
  next
    case True
    then obtain v p where v: "item_at items i = Some v" and p: "findText t ?tn = Some p"
      unfolding row_used_iff by blast
    from findText_sound [OF p] obtain n where n: "node_at t p = Some n" by blast
    let ?t1 = "update_at (set_characters v) p t"
    have t1: "text_of ?t1 = (\<lambda>k. if k = ?tn then Some v else text_of t k)"
      using text_of_set_characters [OF p, of v] by (intro ext) simp
    have v1: "vis_of ?t1 = vis_of t"
      using vis_of_set_characters by (intro ext) simp
    show ?thesis
    proof (cases "load_fonts lf n")
      case (Some e)
      then show ?thesis
        unfolding row_step_used [OF True p n v] by simp
    next
      case None
      then show ?thesis
        unfolding row_step_used [OF True p n v] obs_row_used [OF True v]
        by (simp only: option.case sum.case obs_of_row_visible t1 v1)
    qed
  qed
qed

lemma metric_steps_effect: "list_all2 step_effect (metric_steps lf ms i) (obs_metric ms i)"
  by (simp add: metric_steps_def obs_metric_def Let_def setTextByName_effect)

lemma seq_steps_obs:
  assumes "list_all2 step_effect fs As"
  shows "seq_steps fs t = Inr t' \<Longrightarrow> obs_of t' = fold (\<lambda>A. A) As (obs_of t)"
  using assms
proof (induction fs As arbitrary: t rule: list_all2_induct)
  case Nil
  then show ?case by simp
next
  case (Cons f fs A As)
  from Cons.prems obtain t1 where f: "f t = Inr t1" and rest: "seq_steps fs t1 = Inr t'"
    by (auto split: sum.splits)
  from Cons.hyps(1) f have "obs_of t1 = A (obs_of t)"
    by (auto simp: step_effect_def split: sum.splits dest!: spec [of _ t])
  with Cons.IH [OF rest] show ?case by simp
qed

lemma seq_steps_prefix:
  assumes "list_all2 step_effect fs As"
  shows "\<exists>k\<le>length As. obs_of (final_tree (seq_steps fs t)) = fold (\<lambda>A. A) (take k As) (obs_of t)"
  using assms
proof (induction fs As arbitrary: t rule: list_all2_induct)
  case Nil
  then show ?case by (simp add: final_tree_def)
next
  case (Cons f fs A As)
  show ?case
  proof (cases "f t")
    case (Inl x)
    obtain e t1 where x: "x = (e, t1)" by (cases x)
    from Cons.hyps(1) Inl x have "t1 = t"
      by (auto simp: step_effect_def split: sum.splits dest!: spec [of _ t])
    with Inl x show ?thesis
      by (intro exI [of _ 0]) (simp add: final_tree_def)
  next
    case (Inr t1)
    from Cons.hyps(1) Inr have o: "obs_of t1 = A (obs_of t)"
      by (auto simp: step_effect_def split: sum.splits dest!: spec [of _ t])
    from Cons.IH [of t1] obtain k where "k \<le> length As"
      "obs_of (final_tree (seq_steps fs t1)) = fold (\<lambda>A. A) (take k As) (obs_of t1)" by blast
    with Inr o show ?thesis
      by (intro exI [of _ "Suc k"]) simp
  qed
qed

lemma list_all2_map_same:
  "(\<And>x. x \<in> set xs \<Longrightarrow> P (f x) (g x)) \<Longrightarrow> list_all2 P (map f xs) (map g xs)"
  by (induction xs) auto

lemma list_all2_concat_map:
  "(\<And>x. x \<in> set xs \<Longrightarrow> list_all2 P (F x) (G x)) \<Longrightarrow>
     list_all2 P (concat (map F xs)) (concat (map G xs))"
  by (induction xs) (auto intro: list_all2_appendI)

lemma content_steps_effect:
  "list_all2 step_effect (content_steps lf content) (obs_steps content)"
  unfolding content_steps_def obs_steps_def
  by (intro list_all2_appendI list_all2_map_same list_all2_concat_map)
     (auto simp: setTextByName_effect row_step_effect metric_steps_effect)

lemma fst_obs_setText:
  "fst (obs_setText nm val ob) k = (if k = nm \<and> val \<noteq> None \<and> has_text ob nm then val else fst ob k)"
  by (simp add: obs_setText_def)

lemma snd_obs_setText: "snd (obs_setText nm val ob) = snd ob"
  by (simp add: obs_setText_def)

lemma fst_obs_row:
  "fst (obs_row pre items i ob) k =
     (if k = pre @ nat_str i @ '':Text'' \<and> row_used pre items i ob
      then item_at items i else fst ob k)"
  by (simp add: obs_row_def)

lemma snd_obs_row:
  "snd (obs_row pre items i ob) k =
     (if k = pre @ nat_str i \<and> has_vis ob k then Some (row_used pre items i ob) else snd ob k)"
  by (simp add: obs_row_def)

lemma has_text_setText: "has_text (obs_setText nm val ob) k = has_text ob k"
  by (auto simp: obs_setText_def has_text_def)

lemma has_text_row: "has_text (obs_row pre items i ob) k = has_text ob k"
  by (auto simp: obs_row_def row_used_def has_text_def)

lemma has_vis_setText: "has_vis (obs_setText nm val ob) k = has_vis ob k"
  by (auto simp: obs_setText_def has_vis_def)

lemma has_vis_row: "has_vis (obs_row pre items i ob) k = has_vis ob k"
  by (auto simp: obs_row_def has_vis_def)

lemma row_used_setText: "row_used pre items i (obs_setText nm val ob) = row_used pre items i ob"
  unfolding row_used_def by (simp only: has_text_setText)

lemma row_used_row: "row_used pre items i (obs_row pre' items' j ob) = row_used pre items i ob"
  unfolding row_used_def by (simp only: has_text_row)

lemma nat_str_small:
  "nat_str 0 = ''0''" "nat_str 1 = ''1''" "nat_str (Suc 0) = ''1''" "nat_str 2 = ''2''"
  by code_simp+

lemmas obs_simps = fst_obs_setText snd_obs_setText fst_obs_row snd_obs_row
  has_text_setText has_text_row has_vis_setText has_vis_row row_used_setText row_used_row

lemma upt_3: "[0..<3] = [0, 1, 2]"
  by code_simp

lemma less_3_cases: "i < 3 \<Longrightarrow> i = 0 \<or> i = 1 \<or> i = (2::nat)"
  by arith

lemma obs_steps_highlight_text:
  assumes "i < 3"
  shows "fst (fold (\<lambda>A. A) (obs_steps content) ob) (''Hero:Highlight:'' @ nat_str i @ '':Text'')
     = (if row_used ''Hero:Highlight:'' (highlightList content) i ob
        then item_at (highlightList content) i
        else fst ob (''Hero:Highlight:'' @ nat_str i @ '':Text''))"
  using less_3_cases [OF assms]
  by (elim disjE)
     (simp_all add: obs_steps_def hero_fields_def testimonial_fields_def cta_fields_def
        obs_metric_def upt_3 nat_str_small obs_simps)


lemma obs_steps_highlight_vis:
  assumes "i < 3"
  shows "snd (fold (\<lambda>A. A) (obs_steps content) ob) (''Hero:Highlight:'' @ nat_str i)
     = (if has_vis ob (''Hero:Highlight:'' @ nat_str i)
        then Some (row_used ''Hero:Highlight:'' (highlightList content) i ob)
        else snd ob (''Hero:Highlight:'' @ nat_str i))"
  using less_3_cases [OF assms]
  by (elim disjE)
     (simp_all add: obs_steps_def hero_fields_def testimonial_fields_def cta_fields_def
        obs_metric_def upt_3 nat_str_small obs_simps)

lemma obs_steps_bullet_text:
  assumes "i < 3"
  shows "fst (fold (\<lambda>A. A) (obs_steps content) ob) (''Testimonial:Bullet:'' @ nat_str i @ '':Text'')
     = (if row_used ''Testimonial:Bullet:'' (testimonialBullets content) i ob
        then item_at (testimonialBullets content) i
        else fst ob (''Testimonial:Bullet:'' @ nat_str i @ '':Text''))"
  using less_3_cases [OF assms]
  by (elim disjE)
     (simp_all add: obs_steps_def hero_fields_def testimonial_fields_def cta_fields_def
        obs_metric_def upt_3 nat_str_small obs_simps)

lemma obs_steps_bullet_vis:
  assumes "i < 3"
  shows "snd (fold (\<lambda>A. A) (obs_steps content) ob) (''Testimonial:Bullet:'' @ nat_str i)
     = (if has_vis ob (''Testimonial:Bullet:'' @ nat_str i)
        then Some (row_used ''Testimonial:Bullet:'' (testimonialBullets content) i ob)
        else snd ob (''Testimonial:Bullet:'' @ nat_str i))"
  using less_3_cases [OF assms]
  by (elim disjE)
     (simp_all add: obs_steps_def hero_fields_def testimonial_fields_def cta_fields_def
        obs_metric_def upt_3 nat_str_small obs_simps)


text \<open>A name that no statement of a sequence touches keeps what is observed under it,
  wherever the sequence stops.\<close>

lemma fold_take_frame:
  assumes "\<forall>A\<in>set As. \<forall>ob. g (A ob) = g ob"
  shows "g (fold (\<lambda>A. A) (take k As) ob) = g ob"
  using assms
proof (induction As arbitrary: k ob)
  case Nil
  then show ?case by simp
next
  case (Cons A As)
  then show ?case by (cases k) simp_all
qed

lemma obs_steps_metric_vis:
  assumes "i < 3"
  shows "\<forall>A\<in>set (obs_steps content). \<forall>ob.
           snd (A ob) (''HeroMetric:'' @ nat_str i) = snd ob (''HeroMetric:'' @ nat_str i)"
  using less_3_cases [OF assms]
  by (elim disjE)
     (simp_all add: obs_steps_def hero_fields_def testimonial_fields_def cta_fields_def
        obs_metric_def upt_3 nat_str_small obs_simps)

lemma obs_steps_metric_value:
  assumes "i < 3"
    and "case item_at (metricList content) i of None \<Rightarrow> True | Some m \<Rightarrow> metric_value m = None"
  shows "\<forall>A\<in>set (obs_steps content). \<forall>ob.
           fst (A ob) (''HeroMetric:'' @ nat_str i @ '':Value'')
             = fst ob (''HeroMetric:'' @ nat_str i @ '':Value'')"
  using less_3_cases [OF assms(1)] assms(2)
  by (elim disjE)
     (auto simp: obs_steps_def hero_fields_def testimonial_fields_def cta_fields_def
        obs_metric_def upt_3 nat_str_small obs_simps split: option.splits)

lemma obs_steps_metric_label:
  assumes "i < 3"
    and "case item_at (metricList content) i of None \<Rightarrow> True | Some m \<Rightarrow> metric_label m = None"
  shows "\<forall>A\<in>set (obs_steps content). \<forall>ob.
           fst (A ob) (''HeroMetric:'' @ nat_str i @ '':Label'')
             = fst ob (''HeroMetric:'' @ nat_str i @ '':Label'')"
  using less_3_cases [OF assms(1)] assms(2)
  by (elim disjE)
     (auto simp: obs_steps_def hero_fields_def testimonial_fields_def cta_fields_def
        obs_metric_def upt_3 nat_str_small obs_simps split: option.splits)

lemma has_text_obs_of: "has_text (obs_of t) k \<longleftrightarrow> text_of t k \<noteq> None"
  by (simp add: has_text_def obs_of_def)

lemma has_vis_obs_of: "has_vis (obs_of t) k \<longleftrightarrow> vis_of t k \<noteq> None"
  by (simp add: has_vis_def obs_of_def)

lemma fst_obs_of: "fst (obs_of t) k = text_of t k"
  by (simp add: obs_of_def)

lemma snd_obs_of: "snd (obs_of t) k = vis_of t k"
  by (simp add: obs_of_def)

lemma row_used_obs_of:
  "row_used pre items i (obs_of t) \<longleftrightarrow>
     item_at items i \<noteq> None \<and> item_at items i \<noteq> Some []
     \<and> text_of t (pre @ nat_str i @ '':Text'') \<noteq> None"
  by (simp add: row_used_def has_text_obs_of)

lemma applyGeminiContent_obs:
  assumes "applyGeminiContent lf landing content = Inr t'"
  shows "text_of t' k = fst (fold (\<lambda>A. A) (obs_steps content) (obs_of landing)) k"
    and "vis_of t' k = snd (fold (\<lambda>A. A) (obs_steps content) (obs_of landing)) k"
proof -
  from seq_steps_obs [OF content_steps_effect assms [unfolded applyGeminiContent_def]]
  have "obs_of t' = fold (\<lambda>A. A) (obs_steps content) (obs_of landing)" .
  then have "(text_of t', vis_of t') = fold (\<lambda>A. A) (obs_steps content) (obs_of landing)"
    by (simp add: obs_of_def)
  then show "text_of t' k = fst (fold (\<lambda>A. A) (obs_steps content) (obs_of landing)) k"
    and "vis_of t' k = snd (fold (\<lambda>A. A) (obs_steps content) (obs_of landing)) k"
    by (metis fst_conv, metis snd_conv)
qed

lemma applyGeminiContent_frame:
  assumes "\<forall>A\<in>set (obs_steps content). \<forall>ob. g (A ob) = g ob"
  shows "g (obs_of (final_tree (applyGeminiContent lf landing content))) = g (obs_of landing)"
proof -
  from seq_steps_prefix [OF content_steps_effect, where t = landing and lf1 = lf and content1 = content]
  obtain k where "obs_of (final_tree (applyGeminiContent lf landing content))
      = fold (\<lambda>A. A) (take k (obs_steps content)) (obs_of landing)"
    unfolding applyGeminiContent_def by blast
  with fold_take_frame [OF assms] show ?thesis by simp
qed

text \<open>On a host where every font loads, \<open>applyGeminiContent\<close> does not throw.\<close>

lemma load_all_ok: "load_all fonts_ok fs = None"
proof (induction fs)
  case Nil
  show ?case by simp
next
  case (Cons a fs)
  then show ?case by (cases a) (simp_all add: fonts_ok_def)
qed

lemma load_fonts_ok: "load_fonts fonts_ok n = None"
  by (simp add: load_fonts_def load_all_ok fonts_ok_def split: font_name.split)

lemma setText_ok: "\<exists>t'. setText fonts_ok p v t = Inr t'"
  by (simp add: setText_def load_fonts_ok split: option.split)

lemma row_step_ok: "\<exists>t'. row_step fonts_ok pre items i t = Inr t'"
proof -
  obtain t1 where "setText fonts_ok (findText t (pre @ nat_str i @ '':Text'')) (item_at items i) t = Inr t1"
    using setText_ok by blast
  then show ?thesis
    by (simp add: row_step_def Let_def split: option.split)
qed

lemma seq_steps_ok:
  assumes "\<forall>f\<in>set fs. \<forall>t. \<exists>t'. f t = Inr t'"
  shows "\<exists>t'. seq_steps fs t = Inr t'"
  using assms
proof (induction fs arbitrary: t)
  case Nil
  then show ?case by simp
next
  case (Cons f fs)
  then obtain t1 where "f t = Inr t1" by (meson list.set_intros(1))
  with Cons show ?case by simp
qed

lemma applyGeminiContent_fonts_ok:
  "applyGeminiContent fonts_ok landing content
     = Inr (final_tree (applyGeminiContent fonts_ok landing content))"
proof -
  have "\<forall>f\<in>set (content_steps fonts_ok content). \<forall>t. \<exists>t'. f t = Inr t'"
    by (auto simp: content_steps_def metric_steps_def Let_def setTextByName_def
        intro: setText_ok row_step_ok)
  from seq_steps_ok [OF this, of landing] obtain t' where
    "applyGeminiContent fonts_ok landing content = Inr t'"
    unfolding applyGeminiContent_def by blast
  then show ?thesis by (simp add: final_tree_def)
qed

text \<open>
  The effect of a completed \<open>applyGeminiContent\<close> on a repeatable row and on a plain field,
  in terms of the tree it was applied to.
\<close>

lemma map_option_if:
  "(if x \<noteq> None then Some b else x) = map_option (\<lambda>v. b) x"
  by (cases x) simp_all

lemma applyGeminiContent_highlight:
  assumes ok: "applyGeminiContent lf landing content = Inr t'" and i: "i < 3"
  shows "text_of t' (''Hero:Highlight:'' @ nat_str i @ '':Text'')
           = (if row_used ''Hero:Highlight:'' (highlightList content) i (obs_of landing)
              then item_at (highlightList content) i
              else text_of landing (''Hero:Highlight:'' @ nat_str i @ '':Text''))"
    and "vis_of t' (''Hero:Highlight:'' @ nat_str i)
           = map_option (\<lambda>v. row_used ''Hero:Highlight:'' (highlightList content) i (obs_of landing))
               (vis_of landing (''Hero:Highlight:'' @ nat_str i))"
proof -
  show "text_of t' (''Hero:Highlight:'' @ nat_str i @ '':Text'')
           = (if row_used ''Hero:Highlight:'' (highlightList content) i (obs_of landing)
              then item_at (highlightList content) i
              else text_of landing (''Hero:Highlight:'' @ nat_str i @ '':Text''))"
    unfolding applyGeminiContent_obs(1) [OF ok] obs_steps_highlight_text [OF i]
    by (simp only: fst_obs_of)
  show "vis_of t' (''Hero:Highlight:'' @ nat_str i)
           = map_option (\<lambda>v. row_used ''Hero:Highlight:'' (highlightList content) i (obs_of landing))
               (vis_of landing (''Hero:Highlight:'' @ nat_str i))"
    unfolding applyGeminiContent_obs(2) [OF ok] obs_steps_highlight_vis [OF i]
    by (simp only: snd_obs_of has_vis_obs_of map_option_if)
qed

lemma applyGeminiContent_bullet:
  assumes ok: "applyGeminiContent lf landing content = Inr t'" and i: "i < 3"
  shows "text_of t' (''Testimonial:Bullet:'' @ nat_str i @ '':Text'')
           = (if row_used ''Testimonial:Bullet:'' (testimonialBullets content) i (obs_of landing)
              then item_at (testimonialBullets content) i
              else text_of landing (''Testimonial:Bullet:'' @ nat_str i @ '':Text''))"
    and "vis_of t' (''Testimonial:Bullet:'' @ nat_str i)
           = map_option (\<lambda>v. row_used ''Testimonial:Bullet:'' (testimonialBullets content) i (obs_of landing))
               (vis_of landing (''Testimonial:Bullet:'' @ nat_str i))"
proof -
  show "text_of t' (''Testimonial:Bullet:'' @ nat_str i @ '':Text'')
           = (if row_used ''Testimonial:Bullet:'' (testimonialBullets content) i (obs_of landing)
              then item_at (testimonialBullets content) i
              else text_of landing (''Testimonial:Bullet:'' @ nat_str i @ '':Text''))"
    unfolding applyGeminiContent_obs(1) [OF ok] obs_steps_bullet_text [OF i]
    by (simp only: fst_obs_of)
  show "vis_of t' (''Testimonial:Bullet:'' @ nat_str i)
           = map_option (\<lambda>v. row_used ''Testimonial:Bullet:'' (testimonialBullets content) i (obs_of landing))
               (vis_of landing (''Testimonial:Bullet:'' @ nat_str i))"
    unfolding applyGeminiContent_obs(2) [OF ok] obs_steps_bullet_vis [OF i]
    by (simp only: snd_obs_of has_vis_obs_of map_option_if)
qed

lemma applyGeminiContent_row:
  assumes ok: "applyGeminiContent lf landing content = Inr t'" and i: "i < 3"
    and rows: "pre = ''Hero:Highlight:'' \<and> items = highlightList content
               \<or> pre = ''Testimonial:Bullet:'' \<and> items = testimonialBullets content"
  shows "text_of t' (pre @ nat_str i @ '':Text'')
           = (if row_used pre items i (obs_of landing) then item_at items i
              else text_of landing (pre @ nat_str i @ '':Text''))"
    and "vis_of t' (pre @ nat_str i)
           = map_option (\<lambda>v. row_used pre items i (obs_of landing)) (vis_of landing (pre @ nat_str i))"
  using rows applyGeminiContent_highlight [OF ok i] applyGeminiContent_bullet [OF ok i]
  by auto

text \<open>
  C4, as the code has it. The payload is taken at its declared type. When
  \<open>applyGeminiContent\<close> returns, for every row index \<open>i\<close> below 3 of the hero highlights
  and of the testimonial bullets: if the list has a non-empty item at \<open>i\<close> and the text
  anchor of the row exists in the tree, the text of the anchor is that item and the row
  container, if the tree has one, is visible; otherwise the row container, if the tree has
  one, is hidden.
\<close>

theorem applyGeminiContent_rows:
  assumes "applyGeminiContent lf landing content = Inr t'" and "i < 3"
    and "pre = ''Hero:Highlight:'' \<and> items = highlightList content
         \<or> pre = ''Testimonial:Bullet:'' \<and> items = testimonialBullets content"
  shows "if item_at items i \<noteq> None \<and> item_at items i \<noteq> Some []
            \<and> text_of landing (pre @ nat_str i @ '':Text'') \<noteq> None
         then text_of t' (pre @ nat_str i @ '':Text'') = item_at items i
              \<and> vis_of t' (pre @ nat_str i)
                  = map_option (\<lambda>v. True) (vis_of landing (pre @ nat_str i))
         else vis_of t' (pre @ nat_str i)
                  = map_option (\<lambda>v. False) (vis_of landing (pre @ nat_str i))"
  using applyGeminiContent_row [OF assms]
  by (simp add: row_used_obs_of)

text \<open>What the concrete landing frame and the concrete payloads hold.\<close>

lemma demo_eval:
  "text_of demo_landing ''Hero:Highlight:0:Text'' = Some ''highlight 0''"
  "text_of demo_landing ''Hero:Highlight:1:Text'' = Some ''highlight 1''"
  "text_of demo_landing ''Hero:Highlight:2:Text'' = Some ''highlight 2''"
  "vis_of demo_landing ''Hero:Highlight:0'' = Some True"
  "vis_of demo_landing ''Hero:Highlight:1'' = Some True"
  "vis_of demo_landing ''Hero:Highlight:2'' = Some True"
  "text_of demo_landing ''Hero:Heading'' = Some ''Old heading''"
  "text_of demo_landing ''Testimonial:Bullet:0:Text'' = Some ''Old bullet''"
  "vis_of demo_landing ''Testimonial:Bullet:0'' = Some True"
  "vis_of demo_landing ''HeroMetric:0'' = Some True"
  "vis_of demo_landing ''HeroMetric:1'' = Some True"
  "vis_of demo_landing ''HeroMetric:2'' = Some True"
  "text_of demo_landing ''HeroMetric:0:Label'' = Some ''label 0''"
  "text_of demo_landing ''HeroMetric:1:Value'' = Some ''value 1''"
  "text_of demo_landing ''HeroMetric:1:Label'' = Some ''label 1''"
  "text_of demo_landing ''HeroMetric:2:Value'' = Some ''value 2''"
  "text_of demo_landing ''HeroMetric:2:Label'' = Some ''label 2''"
  by code_simp+

lemma payload_eval:
  "highlightList content_AB = [''A'', ''B'']"
  "highlightList content_empty = [[], ''B'']"
  "testimonialBullets content_empty = [[]]"
  "metricList content_metric = [\<lparr>metric_value = Some ''72%'', metric_label = None\<rparr>]"
  by (simp_all add: highlightList_def testimonialBullets_def metricList_def content_AB_def
      content_empty_def content_metric_def no_content_def no_hero_def no_testimonial_def)

text \<open>
  The highlights \<open>["A", "B"]\<close> on a host where every font loads: rows 0 and 1 are visible
  with the texts \<open>A\<close> and \<open>B\<close>, and row 2 is hidden.
\<close>

theorem applyGeminiContent_rows_witness:
  "text_of (final_tree (applyGeminiContent fonts_ok demo_landing content_AB)) ''Hero:Highlight:0:Text''
     = Some ''A''
   \<and> vis_of (final_tree (applyGeminiContent fonts_ok demo_landing content_AB)) ''Hero:Highlight:0''
     = Some True
   \<and> text_of (final_tree (applyGeminiContent fonts_ok demo_landing content_AB)) ''Hero:Highlight:1:Text''
     = Some ''B''
   \<and> vis_of (final_tree (applyGeminiContent fonts_ok demo_landing content_AB)) ''Hero:Highlight:1''
     = Some True
   \<and> vis_of (final_tree (applyGeminiContent fonts_ok demo_landing content_AB)) ''Hero:Highlight:2''
     = Some False"
proof -
  let ?t = "final_tree (applyGeminiContent fonts_ok demo_landing content_AB)"
  have ok: "applyGeminiContent fonts_ok demo_landing content_AB = Inr ?t"
    by (rule applyGeminiContent_fonts_ok)
  have r: "''Hero:Highlight:'' = ''Hero:Highlight:'' \<and> [''A'', ''B''] = highlightList content_AB
         \<or> ''Hero:Highlight:'' = ''Testimonial:Bullet:'' \<and> [''A'', ''B''] = testimonialBullets content_AB"
    by (simp add: payload_eval)
  have 0: "(0::nat) < 3" and 1: "(1::nat) < 3" and 2: "(2::nat) < 3" by simp_all
  from applyGeminiContent_rows [OF ok 0 r] applyGeminiContent_rows [OF ok 1 r]
    applyGeminiContent_rows [OF ok 2 r]
  show ?thesis
    by (simp add: item_at_def nat_str_small demo_eval)
qed

text \<open>
  C4 as written fails. The highlights \<open>["", "B"]\<close> provide an item at index 0 and the text
  anchor of row 0 exists, but the item is the empty string, which the test
  \<open>highlight && highlightText\<close> takes as absent: the text of the anchor stays what it was
  and row 0 is hidden. And on a host where loading a font fails, \<open>setText\<close> throws at
  row 0 of the highlights \<open>["A", "B"]\<close>, the tree is left as it was, and row 2, for which
  the payload has no item, is still visible.
\<close>

theorem applyGeminiContent_rows_counterexample:
  "item_at (highlightList content_empty) 0 = Some []
   \<and> text_of demo_landing ''Hero:Highlight:0:Text'' = Some ''highlight 0''
   \<and> vis_of demo_landing ''Hero:Highlight:0'' = Some True
   \<and> text_of (final_tree (applyGeminiContent fonts_ok demo_landing content_empty)) ''Hero:Highlight:0:Text''
       = Some ''highlight 0''
   \<and> vis_of (final_tree (applyGeminiContent fonts_ok demo_landing content_empty)) ''Hero:Highlight:0''
       = Some False
   \<and> applyGeminiContent fonts_fail demo_landing content_AB = Inl (Err ''font not available'', demo_landing)
   \<and> vis_of (final_tree (applyGeminiContent fonts_fail demo_landing content_AB)) ''Hero:Highlight:2''
       = Some True"
  by code_simp

text \<open>
  C5. For every metric index \<open>i\<close> below 3, applying a payload, whether the application
  returns or throws, leaves the visibility of the metric card \<open>HeroMetric:i\<close> as it was;
  and when the payload has no metric at \<open>i\<close>, or that metric has no value (no label), the
  text of the anchor \<open>HeroMetric:i:Value\<close> (\<open>HeroMetric:i:Label\<close>) is left as it was.
\<close>

theorem applyGeminiContent_metrics:
  assumes "i < 3"
  shows "vis_of (final_tree (applyGeminiContent lf landing content)) (''HeroMetric:'' @ nat_str i)
           = vis_of landing (''HeroMetric:'' @ nat_str i)
         \<and> ((case item_at (metricList content) i of
                None \<Rightarrow> True | Some m \<Rightarrow> metric_value m = None) \<longrightarrow>
              text_of (final_tree (applyGeminiContent lf landing content))
                  (''HeroMetric:'' @ nat_str i @ '':Value'')
                = text_of landing (''HeroMetric:'' @ nat_str i @ '':Value''))
         \<and> ((case item_at (metricList content) i of
                None \<Rightarrow> True | Some m \<Rightarrow> metric_label m = None) \<longrightarrow>
              text_of (final_tree (applyGeminiContent lf landing content))
                  (''HeroMetric:'' @ nat_str i @ '':Label'')
                = text_of landing (''HeroMetric:'' @ nat_str i @ '':Label''))"
proof (intro conjI impI)
  show "vis_of (final_tree (applyGeminiContent lf landing content)) (''HeroMetric:'' @ nat_str i)
           = vis_of landing (''HeroMetric:'' @ nat_str i)"
    using applyGeminiContent_frame [where g = "\<lambda>ob. snd ob (''HeroMetric:'' @ nat_str i)",
        OF obs_steps_metric_vis [OF assms]]
    by (simp add: snd_obs_of)
next
  assume "case item_at (metricList content) i of None \<Rightarrow> True | Some m \<Rightarrow> metric_value m = None"
  from applyGeminiContent_frame [where g = "\<lambda>ob. fst ob (''HeroMetric:'' @ nat_str i @ '':Value'')",
        OF obs_steps_metric_value [OF assms this]]
  show "text_of (final_tree (applyGeminiContent lf landing content))
                  (''HeroMetric:'' @ nat_str i @ '':Value'')
                = text_of landing (''HeroMetric:'' @ nat_str i @ '':Value'')"
    by (simp add: fst_obs_of)
next
  assume "case item_at (metricList content) i of None \<Rightarrow> True | Some m \<Rightarrow> metric_label m = None"
  from applyGeminiContent_frame [where g = "\<lambda>ob. fst ob (''HeroMetric:'' @ nat_str i @ '':Label'')",
        OF obs_steps_metric_label [OF assms this]]
  show "text_of (final_tree (applyGeminiContent lf landing content))
                  (''HeroMetric:'' @ nat_str i @ '':Label'')
                = text_of landing (''HeroMetric:'' @ nat_str i @ '':Label'')"
    by (simp add: fst_obs_of)
qed

text \<open>
  The metrics \<open>[{value: "72%"}]\<close>: the three metric cards stay visible, and the label of
  card 0 and the texts of cards 1 and 2 stay what they were.
\<close>

theorem applyGeminiContent_metrics_witness:
  "vis_of (final_tree (applyGeminiContent fonts_ok demo_landing content_metric)) ''HeroMetric:0''
     = Some True
   \<and> vis_of (final_tree (applyGeminiContent fonts_ok demo_landing content_metric)) ''HeroMetric:1''
     = Some True
   \<and> vis_of (final_tree (applyGeminiContent fonts_ok demo_landing content_metric)) ''HeroMetric:2''
     = Some True
   \<and> text_of (final_tree (applyGeminiContent fonts_ok demo_landing content_metric)) ''HeroMetric:0:Label''
     = Some ''label 0''
   \<and> text_of (final_tree (applyGeminiContent fonts_ok demo_landing content_metric)) ''HeroMetric:1:Value''
     = Some ''value 1''
   \<and> text_of (final_tree (applyGeminiContent fonts_ok demo_landing content_metric)) ''HeroMetric:1:Label''
     = Some ''label 1''
   \<and> text_of (final_tree (applyGeminiContent fonts_ok demo_landing content_metric)) ''HeroMetric:2:Value''
     = Some ''value 2''
   \<and> text_of (final_tree (applyGeminiContent fonts_ok demo_landing content_metric)) ''HeroMetric:2:Label''
     = Some ''label 2''"
proof -
  have 0: "(0::nat) < 3" and 1: "(1::nat) < 3" and 2: "(2::nat) < 3" by simp_all
  from applyGeminiContent_metrics [OF 0, of fonts_ok demo_landing content_metric]
    applyGeminiContent_metrics [OF 1, of fonts_ok demo_landing content_metric]
    applyGeminiContent_metrics [OF 2, of fonts_ok demo_landing content_metric]
  show ?thesis
    by (simp add: item_at_def nat_str_small demo_eval payload_eval)
qed




section \<open>The scene graph builder\<close>

text \<open>
  A builder reads the host only through \<open>loadFontAsync\<close>, and a build that returns has
  had every font loaded: it returns what the build returns on a host where every font
  loads.
\<close>

lemma carries_refl: "carries r r"
  by (simp add: carries_def)

lemma carries_append_all:
  assumes "list_all2 carries cs cs'"
  shows "carries (append_all parent cs) (append_all parent cs')"
  using assms
proof (induction cs cs' arbitrary: parent rule: list_all2_induct)
  case Nil
  show ?case by (simp add: carries_def)
next
  case (Cons c cs c' cs')
  show ?case
  proof (cases c)
    case (Inl e)
    then show ?thesis by (simp add: carries_def)
  next
    case (Inr n)
    with Cons.hyps(1) have "c' = Inr n" by (simp add: carries_def)
    with Inr Cons.IH [of "appendChild parent n"] show ?thesis by simp
  qed
qed

lemma carries_named:
  assumes "carries r r'"
  shows "carries (named nm r) (named nm r')"
  using assms by (cases r) (auto simp: carries_def named_def)

lemma carries_name_first_text:
  assumes "carries r r'"
  shows "carries (name_first_text nm r) (name_first_text nm r')"
  using assms by (cases r) (auto simp: carries_def name_first_text_def)

lemma carries_createTextNode:
  "carries (createTextNode T lf content variant) (createTextNode T fonts_ok content variant)"
  by (auto simp: carries_def createTextNode_def applyTextStyle_def fonts_ok_def Let_def
      split: option.splits sum.splits)

lemma carries_map:
  assumes "\<And>x. carries (f x) (g x)"
  shows "list_all2 carries (map f xs) (map g xs)"
  using assms by (simp add: list_all2_conv_all_nth)

lemma carries_case_prod:
  assumes "\<And>a b. carries (f a b) (g a b)"
  shows "carries (case x of (a, b) \<Rightarrow> f a b) (case x of (a, b) \<Rightarrow> g a b)"
  using assms by (cases x) simp

lemma carries_append:
  assumes "list_all2 carries xs xs'" and "list_all2 carries ys ys'"
  shows "list_all2 carries (xs @ ys) (xs' @ ys')"
  using assms by (rule list_all2_appendI)

lemmas carries_intros =
  carries_append_all carries_named carries_name_first_text carries_createTextNode
  carries_map carries_case_prod carries_append list.rel_intros carries_refl

lemma carries_createButton:
  "carries (createButton T lf label variant) (createButton T fonts_ok label variant)"
  unfolding createButton_def if_cancel by (intro carries_intros)

lemma carries_createMetricCard:
  "carries (createMetricCard T lf i v l a) (createMetricCard T fonts_ok i v l a)"
  unfolding createMetricCard_def by (intro carries_intros)

lemma carries_createHeroVisualHeader:
  "carries (createHeroVisualHeader T lf) (createHeroVisualHeader T fonts_ok)"
  unfolding createHeroVisualHeader_def by (intro carries_intros)

lemma carries_createHeroVisualToolbar:
  "carries (createHeroVisualToolbar T lf) (createHeroVisualToolbar T fonts_ok)"
  unfolding createHeroVisualToolbar_def by (intro carries_intros)

lemma carries_createHeroVisualMainCard:
  "carries (createHeroVisualMainCard T lf) (createHeroVisualMainCard T fonts_ok)"
  unfolding createHeroVisualMainCard_def by (intro carries_intros)

lemma carries_createHeroVisualSidebar:
  "carries (createHeroVisualSidebar T lf) (createHeroVisualSidebar T fonts_ok)"
  unfolding createHeroVisualSidebar_def by (intro carries_intros)

lemma carries_createHeroVisualReviewRow:
  "carries (createHeroVisualReviewRow T lf) (createHeroVisualReviewRow T fonts_ok)"
  unfolding createHeroVisualReviewRow_def by (intro carries_intros)


lemma carries_createHeroVisualContent:
  "carries (createHeroVisualContent T lf) (createHeroVisualContent T fonts_ok)"
  unfolding createHeroVisualContent_def
  by (intro carries_intros carries_createHeroVisualMainCard carries_createHeroVisualSidebar
      carries_createHeroVisualReviewRow)

lemma carries_createHeroVisualBody:
  "carries (createHeroVisualBody T lf) (createHeroVisualBody T fonts_ok)"
  unfolding createHeroVisualBody_def
  by (intro carries_intros carries_createHeroVisualToolbar carries_createHeroVisualContent)

lemma carries_createHeroVisualStats:
  "carries (createHeroVisualStats T lf) (createHeroVisualStats T fonts_ok)"
  unfolding createHeroVisualStats_def by (intro carries_intros)

lemma carries_createHeroVisual:
  "carries (createHeroVisual T lf) (createHeroVisual T fonts_ok)"
  unfolding createHeroVisual_def
  by (intro carries_intros carries_createHeroVisualHeader carries_createHeroVisualBody
      carries_createHeroVisualStats)

lemma carries_item_rows:
  "list_all2 carries (item_rows T lf pre items) (item_rows T fonts_ok pre items)"
  unfolding item_rows_def by (intro carries_intros)

lemma carries_createHeroSection:
  "carries (createHeroSection T lf) (createHeroSection T fonts_ok)"
  unfolding createHeroSection_def
  by (intro carries_intros carries_item_rows carries_createButton carries_createHeroVisual
      carries_createMetricCard)

lemma carries_createTestimonialCopyColumn:
  "carries (createTestimonialCopyColumn T lf) (createTestimonialCopyColumn T fonts_ok)"
  unfolding createTestimonialCopyColumn_def
  by (intro carries_intros carries_item_rows)

lemma carries_metric_chip:
  "list_all2 carries
     (case m of
        None \<Rightarrow> []
      | Some m \<Rightarrow>
          if m = [] then []
          else [append_all (createAutoLayout HORIZONTAL) [createTextNode T lf m ''captionBold'']])
     (case m of
        None \<Rightarrow> []
      | Some m \<Rightarrow>
          if m = [] then []
          else [append_all (createAutoLayout HORIZONTAL)
                  [createTextNode T fonts_ok m ''captionBold'']])"
proof (cases m)
  case None
  show ?thesis unfolding None option.case by (rule list.rel_intros)
next
  case (Some x)
  show ?thesis
  proof (cases "x = []")
    case True
    show ?thesis unfolding Some option.case True by (simp only: simp_thms if_True list.rel_intros)
  next
    case False
    then show ?thesis
      unfolding Some option.case by (simp only: if_False) (intro carries_intros)
  qed
qed

lemma carries_buildTestimonialCard:
  "carries (buildTestimonialCard T lf d) (buildTestimonialCard T fonts_ok d)"
  unfolding buildTestimonialCard_def
  by (intro carries_intros carries_metric_chip)

lemma carries_createTestimonialCards:
  "carries (createTestimonialCards T lf) (createTestimonialCards T fonts_ok)"
  unfolding createTestimonialCards_def
  by (intro carries_intros carries_buildTestimonialCard)

lemma carries_createTestimonialSection:
  "carries (createTestimonialSection T lf) (createTestimonialSection T fonts_ok)"
  unfolding createTestimonialSection_def
  by (intro carries_intros carries_createTestimonialCopyColumn carries_createTestimonialCards)

lemma carries_createCTASection:
  "carries (createCTASection T lf) (createCTASection T fonts_ok)"
  unfolding createCTASection_def
  by (intro carries_intros carries_createButton)

lemma carries_buildLanding:
  "carries (buildLanding T lf) (buildLanding T fonts_ok)"
  unfolding buildLanding_def
  by (intro carries_intros carries_createHeroSection carries_createTestimonialSection
      carries_createCTASection)

lemma buildLanding_deterministic:
  assumes "buildLanding T lf1 = Inr l1" and "buildLanding T lf2 = Inr l2"
  shows "l1 = l2"
proof -
  from assms carries_buildLanding [of T lf1] carries_buildLanding [of T lf2]
  have "buildLanding T fonts_ok = Inr l1" and "buildLanding T fonts_ok = Inr l2"
    by (simp_all add: carries_def)
  then show ?thesis by simp
qed

text \<open>
  C3. Two builds with the same schema (the static copy is part of the builders), on any
  two hosts and with any two pages: when both return, the landing frames have the same
  topology and the same set of anchor names.
\<close>

theorem applyTokensDemo_deterministic:
  assumes "applyTokensDemo T lf1 canvas1 = Inr (landing1, page1)"
    and "applyTokensDemo T lf2 canvas2 = Inr (landing2, page2)"
  shows "topology landing1 = topology landing2
         \<and> anchor_names landing1 = anchor_names landing2"
proof -
  from assms have "buildLanding T lf1 = Inr landing1" and "buildLanding T lf2 = Inr landing2"
    by (auto simp: applyTokensDemo_def split: sum.splits)
  then have "landing1 = landing2" by (rule buildLanding_deterministic)
  then show ?thesis by simp
qed

text \<open>
  A build on an empty page where every font loads and a build on a page with a frame where
  only the family \<open>Inter\<close> loads.
\<close>

lemma build_ok:
  "(case buildLanding demo_tokens fonts_ok of Inr l \<Rightarrow> True | Inl e \<Rightarrow> False)"
  "(case buildLanding demo_tokens inter_only of Inr l \<Rightarrow> True | Inl e \<Rightarrow> False)"
  by code_simp+

theorem applyTokensDemo_deterministic_witness:
  "topology (landing_of (applyTokensDemo demo_tokens fonts_ok []))
     = topology (landing_of (applyTokensDemo demo_tokens inter_only [createFrame]))
   \<and> anchor_names (landing_of (applyTokensDemo demo_tokens fonts_ok []))
     = anchor_names (landing_of (applyTokensDemo demo_tokens inter_only [createFrame]))
   \<and> (\<exists>l. applyTokensDemo demo_tokens fonts_ok [] = Inr (l, [l]))
   \<and> (\<exists>l. applyTokensDemo demo_tokens inter_only [createFrame] = Inr (l, [createFrame, l]))"
proof -
  from build_ok(1) obtain l1 where 1: "buildLanding demo_tokens fonts_ok = Inr l1"
    by (cases "buildLanding demo_tokens fonts_ok") simp_all
  from build_ok(2) obtain l2 where 2: "buildLanding demo_tokens inter_only = Inr l2"
    by (cases "buildLanding demo_tokens inter_only") simp_all
  have a: "applyTokensDemo demo_tokens fonts_ok [] = Inr (l1, [l1])"
    by (simp add: applyTokensDemo_def 1)
  have b: "applyTokensDemo demo_tokens inter_only [createFrame] = Inr (l2, [createFrame, l2])"
    by (simp add: applyTokensDemo_def 2)
  from applyTokensDemo_deterministic [OF a b] show ?thesis
    by (simp add: a b landing_of_def)
qed

section \<open>The generation orchestrator\<close>

lemma trim_empty_iff: "trim p = [] \<longleftrightarrow> (\<forall>c\<in>set p. is_space c)"
proof
  assume "trim p = []"
  then have "dropWhile is_space (rev (dropWhile is_space p)) = []"
    by (simp add: trim_def)
  then have "\<forall>c\<in>set (rev (dropWhile is_space p)). is_space c"
    by (simp add: dropWhile_eq_Nil_conv)
  then have a: "\<forall>c\<in>set (dropWhile is_space p). is_space c" by simp
  have "dropWhile is_space p = []"
  proof (cases "dropWhile is_space p")
    case Nil
    then show ?thesis .
  next
    case (Cons x xs)
    then have "\<not> is_space x" using hd_dropWhile [of is_space p] by simp
    moreover from a Cons have "is_space x" by simp
    ultimately show ?thesis by simp
  qed
  then show "\<forall>c\<in>set p. is_space c" by (rule iffD1 [OF dropWhile_eq_Nil_conv])
next
  assume "\<forall>c\<in>set p. is_space c"
  then have "dropWhile is_space p = []" by (induction p) auto
  then show "trim p = []" unfolding trim_def by (simp only: rev.simps dropWhile.simps)
qed

lemma handle_invalid_prompt:
  assumes "prompt = JOther \<or> (\<exists>p. prompt = JString p \<and> (\<forall>c\<in>set p. is_space c))"
  shows "handleGenerateAiSite h b prompt w
           = postStatus error ''Masukkan prompt yang jelas untuk Gemini.'' w"
  using assms
proof
  assume "prompt = JOther"
  then show ?thesis by (simp add: handleGenerateAiSite_def)
next
  assume "\<exists>p. prompt = JString p \<and> (\<forall>c\<in>set p. is_space c)"
  then obtain p where p: "prompt = JString p" and "\<forall>c\<in>set p. is_space c" by blast
  then have "trim p = []" by (simp only: trim_empty_iff)
  then show ?thesis by (simp add: handleGenerateAiSite_def p)
qed

lemma handle_no_key:
  assumes "GEMINI_API_KEY h = None \<or> GEMINI_API_KEY h = Some []"
  shows "handleGenerateAiSite h b prompt w
           = postStatus error ''Masukkan prompt yang jelas untuk Gemini.'' w
         \<or> handleGenerateAiSite h b prompt w
           = notify ''Set VITE_GEMINI_API_KEY di file .env anda.''
               (postStatus error
                  ''Konfigurasi Gemini API belum tersedia (VITE_GEMINI_API_KEY).'' w)"
proof (cases prompt)
  case JOther
  then show ?thesis by (simp add: handleGenerateAiSite_def)
next
  case (JString p)
  show ?thesis
  proof (cases "trim p = []")
    case True
    then show ?thesis by (simp add: handleGenerateAiSite_def JString)
  next
    case False
    have "handleGenerateAiSite h b prompt w
           = notify ''Set VITE_GEMINI_API_KEY di file .env anda.''
               (postStatus error
                  ''Konfigurasi Gemini API belum tersedia (VITE_GEMINI_API_KEY).'' w)"
      unfolding handleGenerateAiSite_def JString js_value.case
      using False assms by (simp only: if_False if_True)
    then show ?thesis by (rule disjI2)
  qed
qed

text \<open>
  C7. For a prompt that is not a string or is a string of white space only (the empty
  string included), and for every call made while the key of the provider is missing or
  empty, whatever the prompt: no request is sent to the provider, the page is not changed,
  and the one status that is posted is an error.
\<close>

theorem handleGenerateAiSite_validation:
  assumes "prompt = JOther \<or> (\<exists>p. prompt = JString p \<and> (\<forall>c\<in>set p. is_space c))
           \<or> GEMINI_API_KEY h = None \<or> GEMINI_API_KEY h = Some []"
  shows "requests (handleGenerateAiSite h b prompt w) = requests w
         \<and> page (handleGenerateAiSite h b prompt w) = page w
         \<and> (\<exists>msg. statuses (handleGenerateAiSite h b prompt w) = statuses w @ [(error, msg)])"
proof -
  from assms consider
      (a) "prompt = JOther \<or> (\<exists>p. prompt = JString p \<and> (\<forall>c\<in>set p. is_space c))"
    | (b) "GEMINI_API_KEY h = None \<or> GEMINI_API_KEY h = Some []"
    by blast
  then show ?thesis
  proof cases
    case a
    show ?thesis
      unfolding handle_invalid_prompt [OF a] by (simp add: postStatus_def)
  next
    case b
    from handle_no_key [OF b, of b prompt w] show ?thesis
    proof
      assume e: "handleGenerateAiSite h b prompt w
           = postStatus error ''Masukkan prompt yang jelas untuk Gemini.'' w"
      show ?thesis unfolding e by (simp add: postStatus_def)
    next
      assume e: "handleGenerateAiSite h b prompt w
           = notify ''Set VITE_GEMINI_API_KEY di file .env anda.''
               (postStatus error
                  ''Konfigurasi Gemini API belum tersedia (VITE_GEMINI_API_KEY).'' w)"
      show ?thesis unfolding e by (simp add: postStatus_def notify_def)
    qed
  qed
qed

text \<open>
  A prompt of three spaces, and the prompt \<open>toko kopi\<close> without a key: no request, and the
  error status of the prompt and of the key.
\<close>

theorem handleGenerateAiSite_validation_witness:
  "requests (handleGenerateAiSite (demo_host ''{}'') demo_build (JString ''   '') empty_world) = []
   \<and> page (handleGenerateAiSite (demo_host ''{}'') demo_build (JString ''   '') empty_world) = []
   \<and> statuses (handleGenerateAiSite (demo_host ''{}'') demo_build (JString ''   '') empty_world)
       = [(error, ''Masukkan prompt yang jelas untuk Gemini.'')]
   \<and> requests (handleGenerateAiSite ((demo_host ''{}'')\<lparr>GEMINI_API_KEY := None\<rparr>) demo_build
         (JString ''toko kopi'') empty_world) = []
   \<and> statuses (handleGenerateAiSite ((demo_host ''{}'')\<lparr>GEMINI_API_KEY := None\<rparr>) demo_build
         (JString ''toko kopi'') empty_world)
       = [(error, ''Konfigurasi Gemini API belum tersedia (VITE_GEMINI_API_KEY).'')]"
proof -
  have a: "JString ''   '' = JOther
           \<or> (\<exists>p. JString ''   '' = JString p \<and> (\<forall>c\<in>set p. is_space c))
           \<or> GEMINI_API_KEY (demo_host ''{}'') = None \<or> GEMINI_API_KEY (demo_host ''{}'') = Some []"
    by (simp add: is_space_def)
  have b: "JString ''toko kopi'' = JOther
           \<or> (\<exists>p. JString ''toko kopi'' = JString p \<and> (\<forall>c\<in>set p. is_space c))
           \<or> GEMINI_API_KEY ((demo_host ''{}'')\<lparr>GEMINI_API_KEY := None\<rparr>) = None
           \<or> GEMINI_API_KEY ((demo_host ''{}'')\<lparr>GEMINI_API_KEY := None\<rparr>) = Some []"
    by simp
  have s1: "statuses (handleGenerateAiSite (demo_host ''{}'') demo_build (JString ''   '') empty_world)
       = [(error, ''Masukkan prompt yang jelas untuk Gemini.'')]"
    by code_simp
  have s2: "statuses (handleGenerateAiSite ((demo_host ''{}'')\<lparr>GEMINI_API_KEY := None\<rparr>) demo_build
         (JString ''toko kopi'') empty_world)
       = [(error, ''Konfigurasi Gemini API belum tersedia (VITE_GEMINI_API_KEY).'')]"
    by code_simp
  from handleGenerateAiSite_validation [OF a, of demo_build empty_world]
    handleGenerateAiSite_validation [OF b, of demo_build empty_world] s1 s2
  show ?thesis by (simp add: empty_world_def)
qed


lemma rx_match_rbrace:
  "rx_match False (Lit CHR ''}'') (u, cs)
     = (case u of [] \<Rightarrow> [] | x # xs \<Rightarrow> if x = CHR ''}'' then [(xs, cs)] else [])"
  by (cases u) (simp_all add: lit_eq_def)

lemma rbrace_none:
  assumes "CHR ''}'' \<notin> set t"
  shows "concat (map (\<lambda>u. rx_match False (Lit CHR ''}'') (u, cs)) (suffixes t)) = []"
  using assms
proof (induction t)
  case Nil
  show ?case by (simp add: rx_match_rbrace del: rx_match.simps)
next
  case (Cons x xs)
  then show ?case by (auto simp: rx_match_rbrace simp del: rx_match.simps)
qed

lemma rbrace_last:
  assumes "CHR ''}'' \<in> set t"
  shows "\<exists>rest. concat (map (\<lambda>u. rx_match False (Lit CHR ''}'') (u, cs)) (suffixes t))
           = (rev (takeWhile (\<lambda>c. c \<noteq> CHR ''}'') (rev t)), cs) # rest"
  using assms
proof (induction t)
  case Nil
  then show ?case by simp
next
  case (Cons x xs)
  show ?case
  proof (cases "CHR ''}'' \<in> set xs")
    case True
    from Cons.IH [OF True] obtain rest where
      r: "concat (map (\<lambda>u. rx_match False (Lit CHR ''}'') (u, cs)) (suffixes xs))
           = (rev (takeWhile (\<lambda>c. c \<noteq> CHR ''}'') (rev xs)), cs) # rest"
      by blast
    from True have "takeWhile (\<lambda>c. c \<noteq> CHR ''}'') (rev xs @ [x])
        = takeWhile (\<lambda>c. c \<noteq> CHR ''}'') (rev xs)"
      by (intro takeWhile_append1 [of "CHR ''}''"]) simp_all
    with r show ?thesis by (simp add: rx_match_rbrace del: rx_match.simps)
  next
    case False
    with Cons.prems have x: "x = CHR ''}''" by simp
    from False have tw: "takeWhile (\<lambda>c. c \<noteq> CHR ''}'') (rev xs @ [x]) = rev xs"
      using x by (subst takeWhile_append2) auto
    have e: "concat (map (\<lambda>u. rx_match False (Lit CHR ''}'') (u, cs)) (suffixes (x # xs)))
        = concat (map (\<lambda>u. rx_match False (Lit CHR ''}'') (u, cs)) (suffixes xs)) @ [(xs, cs)]"
      using x by (simp add: rx_match_rbrace del: rx_match.simps)
    show ?thesis
      unfolding e rbrace_none [OF False] using tw by simp
  qed
qed

lemma rx_match_star_all:
  "rx_match i (Star (Cls (\<lambda>c. True))) (t, cs) = map (\<lambda>u. (u, cs)) (suffixes t)"
  using rx_match_star_cls [of t "\<lambda>c. True" "[]" i cs] by simp

lemma rx_first_json_rx:
  "rx_first False json_rx (s, [])
     = (case s of
          [] \<Rightarrow> None
        | x # t \<Rightarrow>
            if x = CHR ''{'' \<and> CHR ''}'' \<in> set t
            then Some (rev (takeWhile (\<lambda>c. c \<noteq> CHR ''}'') (rev t)), [])
            else None)"
proof (cases s)
  case Nil
  then show ?thesis by (simp add: rx_first_def json_rx_def)
next
  case (Cons x t)
  have m: "rx_match False (Seq (Star (Cls (\<lambda>c. True))) (Lit CHR ''}'')) (t, [])
      = concat (map (\<lambda>u. rx_match False (Lit CHR ''}'') (u, [])) (suffixes t))"
    unfolding rx_match.simps(3) rx_match_star_all by (simp add: comp_def del: rx_match.simps)
  show ?thesis
  proof (cases "x = CHR ''{''")
    case False
    then show ?thesis by (simp add: rx_first_def json_rx_def Cons lit_eq_def)
  next
    case True
    have l: "rx_match False (Lit CHR ''{'') (CHR ''{'' # t, []) = [(t, [])]"
      by (simp add: lit_eq_def)
    have j: "rx_match False json_rx (x # t, [])
        = concat (map (\<lambda>u. rx_match False (Lit CHR ''}'') (u, [])) (suffixes t))"
      unfolding json_rx_def seqs.simps rx_match.simps(3) [of False "Lit CHR ''{''"] True l
      using m by (simp del: rx_match.simps)
    show ?thesis
    proof (cases "CHR ''}'' \<in> set t")
      case False
      then show ?thesis
        unfolding rx_first_def Cons j rbrace_none [OF False] by simp
    next
      case b: True
      from rbrace_last [OF b, of "[]"] obtain rest where
        "concat (map (\<lambda>u. rx_match False (Lit CHR ''}'') (u, [])) (suffixes t))
           = (rev (takeWhile (\<lambda>c. c \<noteq> CHR ''}'') (rev t)), []) # rest"
        by blast
      then have "rx_first False json_rx (x # t, [])
          = Some (rev (takeWhile (\<lambda>c. c \<noteq> CHR ''}'') (rev t)), [])"
        unfolding rx_first_def j by simp
      with b True show ?thesis
        unfolding Cons by simp
    qed
  qed
qed

lemma rx_search_json_rx_none:
  assumes "CHR ''}'' \<notin> set s"
  shows "rx_search False json_rx s = None"
  using assms
proof (induction s)
  case Nil
  show ?case unfolding rx_search.simps rx_first_json_rx by simp
next
  case (Cons x xs)
  then show ?case unfolding rx_search.simps rx_first_json_rx by simp
qed

lemma brace_region_skip:
  assumes "x \<noteq> CHR ''{''"
  shows "brace_region (x # xs) = brace_region xs"
  using assms by (simp add: brace_region_def)

lemma brace_region_open:
  "brace_region (CHR ''{'' # xs)
     = (if CHR ''}'' \<in> set xs
        then Some (CHR ''{'' # rev (dropWhile (\<lambda>c. c \<noteq> CHR ''}'') (rev xs)))
        else None)"
proof (cases "CHR ''}'' \<in> set xs")
  case True
  then have "dropWhile (\<lambda>c. c \<noteq> CHR ''}'') (rev xs) \<noteq> []"
    by (simp add: dropWhile_eq_Nil_conv)
  then show ?thesis
    using True by (simp add: brace_region_def split: list.split)
next
  case False
  then have "dropWhile (\<lambda>c. c \<noteq> CHR ''}'') (rev xs) = []"
    by (intro iffD2 [OF dropWhile_eq_Nil_conv]) auto
  then show ?thesis
    using False by (simp only: brace_region_def dropWhile.simps if_False if_True list.case
        rev.simps simp_thms)
qed

text \<open>
  What the pattern of \<open>parseGeminiJson\<close> matches is the region from the leftmost \<open>{\<close> to
  the rightmost \<open>}\<close> after it.
\<close>

lemma rx_search_json_rx:
  "rx_search False json_rx s = map_option (\<lambda>m. (m, [])) (brace_region s)"
proof (induction s)
  case Nil
  show ?case unfolding rx_search.simps rx_first_json_rx by (simp add: brace_region_def)
next
  case (Cons x xs)
  show ?case
  proof (cases "x = CHR ''{''")
    case False
    then show ?thesis
      unfolding rx_search.simps rx_first_json_rx brace_region_skip [OF False] Cons.IH by simp
  next
    case True
    show ?thesis
    proof (cases "CHR ''}'' \<in> set xs")
      case False
      with rx_search_json_rx_none [OF False] show ?thesis
        unfolding True rx_search.simps rx_first_json_rx brace_region_open by simp
    next
      case b: True
      let ?r = "rev (takeWhile (\<lambda>c. c \<noteq> CHR ''}'') (rev xs))"
      let ?u = "rev (dropWhile (\<lambda>c. c \<noteq> CHR ''}'') (rev xs))"
      have "rev xs = rev ?r @ rev ?u" by simp
      then have "rev (rev xs) = rev (rev ?r @ rev ?u)" by (rule arg_cong)
      then have xs: "xs = ?u @ ?r" by (simp only: rev_rev_ident rev_append)
      then have "length xs = length ?u + length ?r" by (metis length_append)
      then have "take (length xs - length ?r) xs = take (length ?u) (?u @ ?r)"
        using xs by simp
      then have t: "take (length xs - length ?r) xs = ?u" by simp
      have "length ?r \<le> length xs"
        using length_takeWhile_le [of _ "rev xs"] by simp
      then have "take (length (x # xs) - length ?r) (x # xs) = x # take (length xs - length ?r) xs"
        by (simp add: Suc_diff_le)
      with t b show ?thesis
        unfolding True rx_search.simps rx_first_json_rx brace_region_open by simp
    qed
  qed
qed

lemma parseGeminiJson_format:
  assumes "brace_region txt = None \<or> (\<exists>m. brace_region txt = Some m \<and> JSON_parse h m = None)"
  shows "parseGeminiJson h txt = Inl (Err ''Gemini tidak menghasilkan JSON yang valid.'')
         \<or> parseGeminiJson h txt = Inl (Err ''Gagal mem-parsing JSON dari Gemini.'')"
  using assms by (auto simp: parseGeminiJson_def rx_search_json_rx simp del: rx_search.simps)

lemma requestGeminiContent_format:
  assumes "fetch h (gemini_request h q) = Inr resp" and "ok resp" and "json resp = Inr d"
    and "brace_region (response_text d) = None
         \<or> (\<exists>m. brace_region (response_text d) = Some m \<and> JSON_parse h m = None)"
  shows "\<exists>msg\<in>set content_format_messages.
           requestGeminiContent h q w
             = (Inl (Err msg), w\<lparr>requests := requests w @ [gemini_request h q]\<rparr>)"
proof (cases "response_text d = []")
  case True
  with assms(1-3) have "requestGeminiContent h q w
      = (Inl (Err ''Gemini tidak mengembalikan konten.''),
         w\<lparr>requests := requests w @ [gemini_request h q]\<rparr>)"
    by (simp add: requestGeminiContent_def Let_def)
  then show ?thesis by (simp add: content_format_messages_def)
next
  case False
  with assms(1-3) have r: "requestGeminiContent h q w
      = (parseGeminiJson h (response_text d),
         w\<lparr>requests := requests w @ [gemini_request h q]\<rparr>)"
    by (simp add: requestGeminiContent_def Let_def)
  from parseGeminiJson_format [OF assms(4)] show ?thesis
    unfolding r by (auto simp: content_format_messages_def)
qed

text \<open>
  C6. The prompt is valid and the key is configured, the provider answers the request with
  a success response whose body can be read, and the text collected from the body has no
  region from a \<open>{\<close> to a later \<open>}\<close>, or \<open>JSON.parse\<close> rejects the region from the leftmost
  \<open>{\<close> to the rightmost \<open>}\<close>. Then the page is what it was (nothing is built and no node is
  changed), the one request has been sent, and the statuses posted are \<open>loading\<close> and
  then \<open>error\<close> with one of the fixed messages about the format of the content.
\<close>

theorem handleGenerateAiSite_content_format:
  assumes "trim p \<noteq> []" and "GEMINI_API_KEY h = Some k" and "k \<noteq> []"
    and "fetch h (gemini_request h (trim p)) = Inr resp" and "ok resp" and "json resp = Inr d"
    and "brace_region (response_text d) = None
         \<or> (\<exists>m. brace_region (response_text d) = Some m \<and> JSON_parse h m = None)"
  shows "page (handleGenerateAiSite h b (JString p) w) = page w
         \<and> requests (handleGenerateAiSite h b (JString p) w)
             = requests w @ [gemini_request h (trim p)]
         \<and> (\<exists>msg\<in>set content_format_messages.
               statuses (handleGenerateAiSite h b (JString p) w)
                 = statuses w @ [(loading, ''Menghubungi Gemini untuk merumuskan konten...''),
                                 (error, msg)])"
proof -
  let ?w1 = "postStatus loading ''Menghubungi Gemini untuk merumuskan konten...'' w"
  from requestGeminiContent_format [OF assms(4-7), of ?w1] obtain msg where
    m: "msg \<in> set content_format_messages"
    and r: "requestGeminiContent h (trim p) ?w1
             = (Inl (Err msg), ?w1\<lparr>requests := requests ?w1 @ [gemini_request h (trim p)]\<rparr>)"
    by blast
  have "handleGenerateAiSite h b (JString p) w
      = catch_error (Err msg) (?w1\<lparr>requests := requests ?w1 @ [gemini_request h (trim p)]\<rparr>)"
    unfolding handleGenerateAiSite_def js_value.case
    using assms(1-3) r by (simp add: Let_def)
  then show ?thesis
    using m by (auto simp: catch_error_def postStatus_def notify_def)
qed

text \<open>
  A provider that answers with a sentence without braces, and one that answers with braces
  around a text that is not JSON.
\<close>

theorem handleGenerateAiSite_content_format_witness:
  "page (handleGenerateAiSite (demo_host ''Maaf, saya tidak bisa.'') demo_build
       (JString '' toko kopi '') empty_world) = []
   \<and> requests (handleGenerateAiSite (demo_host ''Maaf, saya tidak bisa.'') demo_build
       (JString '' toko kopi '') empty_world)
       = [gemini_request (demo_host ''Maaf, saya tidak bisa.'') ''toko kopi'']
   \<and> statuses (handleGenerateAiSite (demo_host ''Maaf, saya tidak bisa.'') demo_build
       (JString '' toko kopi '') empty_world)
       = [(loading, ''Menghubungi Gemini untuk merumuskan konten...''),
          (error, ''Gemini tidak menghasilkan JSON yang valid.'')]
   \<and> page (handleGenerateAiSite (demo_host ''{ bukan json }'') demo_build
       (JString '' toko kopi '') empty_world) = []
   \<and> statuses (handleGenerateAiSite (demo_host ''{ bukan json }'') demo_build
       (JString '' toko kopi '') empty_world)
       = [(loading, ''Menghubungi Gemini untuk merumuskan konten...''),
          (error, ''Gagal mem-parsing JSON dari Gemini.'')]"
proof -
  let ?h = "demo_host ''Maaf, saya tidak bisa.''"
  let ?g = "demo_host ''{ bukan json }''"
  have t: "trim '' toko kopi '' = ''toko kopi''" by code_simp
  then have t0: "trim '' toko kopi '' \<noteq> []" by simp
  have k: "GEMINI_API_KEY ?h = Some ''key''" "GEMINI_API_KEY ?g = Some ''key''" "''key'' \<noteq> []"
    by (simp_all add: demo_host_def)
  have f: "fetch ?h (gemini_request ?h (trim '' toko kopi '')) = Inr (demo_response ''Maaf, saya tidak bisa.'')"
    "fetch ?g (gemini_request ?g (trim '' toko kopi '')) = Inr (demo_response ''{ bukan json }'')"
    by (simp_all add: demo_host_def)
  have o: "ok (demo_response x)" for x by (simp add: demo_response_def)
  have j: "json (demo_response x)
      = Inr \<lparr>error_message = None,
              candidates = Some [\<lparr>content_parts = Some [\<lparr>part_text = Some x\<rparr>]\<rparr>]\<rparr>" for x
    by (simp add: demo_response_def)
  have b1: "brace_region (response_text \<lparr>error_message = None,
              candidates = Some [\<lparr>content_parts = Some [\<lparr>part_text = Some ''Maaf, saya tidak bisa.''\<rparr>]\<rparr>]\<rparr>) = None
        \<or> (\<exists>m. brace_region (response_text \<lparr>error_message = None,
              candidates = Some [\<lparr>content_parts = Some [\<lparr>part_text = Some ''Maaf, saya tidak bisa.''\<rparr>]\<rparr>]\<rparr>) = Some m
             \<and> JSON_parse ?h m = None)"
    by (rule disjI1) code_simp
  have b2: "brace_region (response_text \<lparr>error_message = None,
              candidates = Some [\<lparr>content_parts = Some [\<lparr>part_text = Some ''{ bukan json }''\<rparr>]\<rparr>]\<rparr>) = None
        \<or> (\<exists>m. brace_region (response_text \<lparr>error_message = None,
              candidates = Some [\<lparr>content_parts = Some [\<lparr>part_text = Some ''{ bukan json }''\<rparr>]\<rparr>]\<rparr>) = Some m
             \<and> JSON_parse ?g m = None)"
    by (rule disjI2) (simp add: demo_host_def brace_region_def response_text_def trim_def is_space_def)
  have s1: "statuses (handleGenerateAiSite ?h demo_build (JString '' toko kopi '') empty_world)
       = [(loading, ''Menghubungi Gemini untuk merumuskan konten...''),
          (error, ''Gemini tidak menghasilkan JSON yang valid.'')]"
    by code_simp
  have s2: "statuses (handleGenerateAiSite ?g demo_build (JString '' toko kopi '') empty_world)
       = [(loading, ''Menghubungi Gemini untuk merumuskan konten...''),
          (error, ''Gagal mem-parsing JSON dari Gemini.'')]"
    by code_simp
  from handleGenerateAiSite_content_format [OF t0 k(1) k(3) f(1) o j b1, of demo_build empty_world]
    handleGenerateAiSite_content_format [OF t0 k(2) k(3) f(2) o j b2, of demo_build empty_world]
    s1 s2 t
  show ?thesis by (simp add: empty_world_def)
qed

end
